theory Spec2Isabelle
  imports Main
begin

section \<open>Paths\<close>

text \<open>
  The server builds every storage path with Node's \<^verbatim>\<open>path.join\<close> (POSIX): the arguments
  are glued with \<open>/\<close>, the result is cut at every \<open>/\<close>, empty and \<open>.\<close> segments are
  dropped and a \<open>..\<close> segment removes the segment before it (for a relative path a
  leading \<open>..\<close> is kept). A path is represented by its normalised list of segments. A
  slash at the very end of the last argument, which \<^verbatim>\<open>path.join\<close> keeps and which makes
  the file system refuse a regular file, is not represented.
\<close>

type_synonym path = "string list"

fun split_at :: "(char \<Rightarrow> bool) \<Rightarrow> string \<Rightarrow> string list" where
  "split_at sep [] = [[]]"
| "split_at sep (c # cs) =
     (if sep c then [] # split_at sep cs
      else (case split_at sep cs of [] \<Rightarrow> [[c]] | s # ss \<Rightarrow> (c # s) # ss))"

definition split_slash :: "string \<Rightarrow> string list" where
  "split_slash s = split_at (\<lambda>c. c = CHR ''/'') s"

text \<open>The stack \<open>acc\<close> holds the segments kept so far, last one first.\<close>

fun normalize_segs :: "string list \<Rightarrow> string list \<Rightarrow> path" where
  "normalize_segs acc [] = rev acc"
| "normalize_segs acc (s # ss) =
     (if s = [] \<or> s = ''.'' then normalize_segs acc ss
      else if s = ''..'' then
        (case acc of
           [] \<Rightarrow> normalize_segs [''..''] ss
         | a # as \<Rightarrow>
             if a = ''..'' then normalize_segs (''..'' # a # as) ss
             else normalize_segs as ss)
      else normalize_segs (s # acc) ss)"

text \<open>
  \<open>join_onto p args\<close> is \<^verbatim>\<open>path.join(p, ...args)\<close> where \<open>p\<close> is a path that an earlier
  \<^verbatim>\<open>path.join\<close> returned (read back as its segments).
\<close>

definition join_onto :: "path \<Rightarrow> string list \<Rightarrow> path" where
  "join_onto p args = normalize_segs [] (p @ concat (map split_slash args))"

definition path_join :: "string list \<Rightarrow> path" where
  "path_join args = join_onto [] args"

definition UPLOAD_DIR :: string where
  "UPLOAD_DIR = ''./uploads''"

text \<open>A plain name: one path segment that is neither empty nor a dot segment.\<close>

definition plain :: "string \<Rightarrow> bool" where
  "plain s = (s \<noteq> [] \<and> s \<noteq> ''.'' \<and> s \<noteq> ''..'' \<and> CHR ''/'' \<notin> set s)"

section \<open>The file system\<close>

text \<open>
  Storage is a map from paths (relative to the working directory) to nodes. The working
  directory and the directories above it always exist.
\<close>

datatype node = File string | Dir

type_synonym filesystem = "path \<Rightarrow> node option"

datatype error = ENOENT | ENOTDIR | EEXIST | EISDIR | ENOTEMPTY | EINVAL | TypeError

definition node_at :: "filesystem \<Rightarrow> path \<Rightarrow> node option" where
  "node_at fs p = (if list_all (\<lambda>s. s = ''..'') p then Some Dir else fs p)"

definition existsSync :: "filesystem \<Rightarrow> path \<Rightarrow> bool" where
  "existsSync fs p = (node_at fs p \<noteq> None)"

text \<open>
  \<^verbatim>\<open>fs.mkdirSync(p, { recursive: true })\<close>: every missing directory on the way to \<open>p\<close> is
  created, an existing directory is left alone, a regular file in the way is an error.
\<close>

fun mkdir_from :: "filesystem \<Rightarrow> path \<Rightarrow> path \<Rightarrow> error + filesystem" where
  "mkdir_from fs pre [] = Inr fs"
| "mkdir_from fs pre (x # xs) =
     (case node_at fs (pre @ [x]) of
        Some (File c) \<Rightarrow> Inl (if xs = [] then EEXIST else ENOTDIR)
      | Some Dir \<Rightarrow> mkdir_from fs (pre @ [x]) xs
      | None \<Rightarrow> mkdir_from (fs(pre @ [x] \<mapsto> Dir)) (pre @ [x]) xs)"

definition mkdirSync_recursive :: "filesystem \<Rightarrow> path \<Rightarrow> error + filesystem" where
  "mkdirSync_recursive fs p = mkdir_from fs [] p"

text \<open>
  \<^verbatim>\<open>fs.renameSync(old, new)\<close>: the regular file at \<open>old\<close> is moved to \<open>new\<close> and replaces
  a regular file there; a directory at \<open>new\<close> is an error (\<open>ENOTEMPTY\<close> when it lies above
  \<open>old\<close>). The handler only renames files formidable has stored; a directory as the source
  can only be the working directory or one above it, which cannot be moved.
\<close>

definition renameSync :: "filesystem \<Rightarrow> path \<Rightarrow> path \<Rightarrow> error + filesystem" where
  "renameSync fs old new =
     (case node_at fs old of
        None \<Rightarrow> Inl ENOENT
      | Some Dir \<Rightarrow> Inl EINVAL
      | Some (File bytes) \<Rightarrow>
          (case node_at fs (butlast new) of
             None \<Rightarrow> Inl ENOENT
           | Some (File c) \<Rightarrow> Inl ENOTDIR
           | Some Dir \<Rightarrow>
               if old = new then Inr fs
               else
                 (case node_at fs new of
                    Some Dir \<Rightarrow> Inl (if take (length new) old = new then ENOTEMPTY else EISDIR)
                  | _ \<Rightarrow> Inr (fs(old := None, new \<mapsto> File bytes)))))"

text \<open>\<^verbatim>\<open>fs.writeFileSync(p, data)\<close>: creates or replaces the regular file at \<open>p\<close>.\<close>

definition writeFileSync :: "filesystem \<Rightarrow> path \<Rightarrow> string \<Rightarrow> error + filesystem" where
  "writeFileSync fs p data =
     (case node_at fs p of
        Some Dir \<Rightarrow> Inl EISDIR
      | _ \<Rightarrow>
          (case node_at fs (butlast p) of
             None \<Rightarrow> Inl ENOENT
           | Some (File c) \<Rightarrow> Inl ENOTDIR
           | Some Dir \<Rightarrow> Inr (fs(p \<mapsto> File data))))"

text \<open>The names a directory listing of \<open>dir\<close> shows (\<^verbatim>\<open>fs.readdirSync\<close>, as a set).\<close>

definition entries :: "filesystem \<Rightarrow> path \<Rightarrow> string set" where
  "entries fs dir = {name. fs (dir @ [name]) \<noteq> None}"

section \<open>Responses and sessions\<close>

text \<open>
  \<open>Send status body\<close> is \<^verbatim>\<open>res.status(status).send(body)\<close> (status 200 when the code
  sets none), \<open>Download p\<close> is \<^verbatim>\<open>res.download(p)\<close>, \<open>SendFile bytes\<close> is a file streamed by
  the static middleware, \<open>RedirectSlash\<close> its redirect for a directory, \<open>NoRoute\<close> the
  framework's answer when nothing handles the request and \<open>Throw e\<close> an exception that
  leaves the handler. The session's \<^verbatim>\<open>userId\<close> is \<open>None\<close> when it is not set.
\<close>

datatype response =
    Send nat string
  | Redirect string
  | Download path
  | SendFile string
  | RedirectSlash
  | NoRoute
  | Throw error

definition requireLogin :: "string option \<Rightarrow> bool" where
  "requireLogin userId = (case userId of None \<Rightarrow> False | Some u \<Rightarrow> u \<noteq> [])"

section \<open>Namespaces\<close>

text \<open>
  The three handlers that need the user's directory all run
  \<^verbatim>\<open>if (!fs.existsSync(userDir)) fs.mkdirSync(userDir, { recursive: true })\<close>.
\<close>

definition ensure_namespace :: "filesystem \<Rightarrow> string \<Rightarrow> error + (filesystem \<times> path)" where
  "ensure_namespace fs username =
     (let userDir = path_join [UPLOAD_DIR, username] in
      if \<not> existsSync fs userDir then
        (case mkdirSync_recursive fs userDir of
           Inl e \<Rightarrow> Inl e
         | Inr fs' \<Rightarrow> Inr (fs', userDir))
      else Inr (fs, userDir))"

section \<open>Download\<close>

text \<open>
  The handler of \<^verbatim>\<open>GET /download/:user/:folder/:filename\<close>. The three parameters are the
  percent-decoded segments of the request path: any non-empty strings, a \<open>..\<close> and a
  decoded slash included.
\<close>

definition download ::
  "filesystem \<Rightarrow> string option \<Rightarrow> string \<Rightarrow> string \<Rightarrow> string \<Rightarrow> response" where
  "download fs userId user folder filename =
     (if \<not> requireLogin userId then Redirect ''/''
      else if userId \<noteq> Some user then Send 403 ''forbidden''
      else
        (let filePath = path_join [UPLOAD_DIR, user, folder, filename] in
         if \<not> existsSync fs filePath then Send 404 ''file not found''
         else Download filePath))"

section \<open>Static files\<close>

text \<open>
  \<^verbatim>\<open>express.static(root)\<close> with its default options, for a GET request whose path (below
  the mount point) has the percent-decoded segments \<open>url_segs\<close>; an empty last segment is a
  slash at the end of the path. The path is normalised first. A path that still has a
  \<open>..\<close> (between slashes or backslashes) is refused, a path with a segment that begins with
  a dot is ignored. For a path that ends with a slash the file \<^verbatim>\<open>index.html\<close> below it is
  streamed; otherwise a regular file is streamed and a directory is answered with a
  redirect to the same path with a slash appended. In every other case the request is
  passed on.
\<close>

datatype static_result = Served string | DirHit | Miss

definition up_path :: "string list \<Rightarrow> bool" where
  "up_path url_segs =
     list_ex (\<lambda>s. ''..'' \<in> set (split_at (\<lambda>c. c = CHR ''/'' \<or> c = CHR 0x5C) s)) url_segs"

definition containsDotFile :: "string list \<Rightarrow> bool" where
  "containsDotFile parts = list_ex (\<lambda>part. length part > 1 \<and> hd part = CHR ''.'') parts"

definition serve_static :: "string \<Rightarrow> filesystem \<Rightarrow> string list \<Rightarrow> static_result" where
  "serve_static root fs url_segs =
     (if up_path (path_join url_segs) then Miss
      else if containsDotFile (path_join url_segs) then Miss
      else if url_segs \<noteq> [] \<and> last url_segs = [] then
        (case node_at fs (path_join (root # url_segs) @ [''index.html'']) of
           Some (File bytes) \<Rightarrow> Served bytes
         | _ \<Rightarrow> Miss)
      else
        (case node_at fs (path_join (root # url_segs)) of
           Some (File bytes) \<Rightarrow> Served bytes
         | Some Dir \<Rightarrow> DirHit
         | None \<Rightarrow> Miss))"

text \<open>
  The two static middlewares are installed before the session middleware and before every
  route: \<^verbatim>\<open>app.use(express.static('public'))\<close> sees every request,
  \<^verbatim>\<open>app.use('/uploads', express.static(UPLOAD_DIR))\<close> those whose first segment is
  \<open>uploads\<close>. \<open>next\<close> is the answer of what is installed after them.
\<close>

definition static_middlewares :: "filesystem \<Rightarrow> string list \<Rightarrow> response \<Rightarrow> response" where
  "static_middlewares fs url_segs next =
     (case serve_static ''public'' fs url_segs of
        Served bytes \<Rightarrow> SendFile bytes
      | DirHit \<Rightarrow> RedirectSlash
      | Miss \<Rightarrow>
          (case url_segs of
             [] \<Rightarrow> next
           | s # rest \<Rightarrow>
               if s = ''uploads'' then
                 (case serve_static UPLOAD_DIR fs rest of
                    Served bytes \<Rightarrow> SendFile bytes
                  | DirHit \<Rightarrow> RedirectSlash
                  | Miss \<Rightarrow> next)
               else next))"

text \<open>
  A GET of \<^verbatim>\<open>/uploads/...\<close>: no route is registered below \<^verbatim>\<open>/uploads\<close>, so a request
  the static middlewares pass on is not handled. The session's \<^verbatim>\<open>userId\<close> is part of
  the request and is never read.
\<close>

definition get_uploads :: "filesystem \<Rightarrow> string option \<Rightarrow> string list \<Rightarrow> response" where
  "get_uploads fs userId rest = static_middlewares fs (''uploads'' # rest) NoRoute"

text \<open>
  A name the static middleware serves as a path segment: a plain name that does not begin
  with a dot and that has no \<open>..\<close> between backslashes.
\<close>

definition static_name :: "string \<Rightarrow> bool" where
  "static_name s = (plain s \<and> hd s \<noteq> CHR ''.'' \<and> \<not> up_path [s])"

section \<open>Sign up\<close>

text \<open>
  \<^verbatim>\<open>users\<close> is a plain JavaScript object: \<^verbatim>\<open>users[username]\<close> is truthy for a stored
  user and for the property names every object inherits. \<open>users_file\<close> is the table as
  last written to \<^verbatim>\<open>users.json\<close>.
\<close>

record 'v server =
  users :: "string \<Rightarrow> 'v option"
  users_file :: "string \<Rightarrow> 'v option"
  files :: filesystem

definition object_prototype_keys :: "string list" where
  "object_prototype_keys =
     [''constructor'', ''__defineGetter__'', ''__defineSetter__'', ''hasOwnProperty'',
      ''__lookupGetter__'', ''__lookupSetter__'', ''isPrototypeOf'',
      ''propertyIsEnumerable'', ''toString'', ''valueOf'', ''__proto__'',
      ''toLocaleString'']"

definition users_truthy :: "(string \<Rightarrow> 'v option) \<Rightarrow> string \<Rightarrow> bool" where
  "users_truthy us username = (us username \<noteq> None \<or> username \<in> set object_prototype_keys)"

text \<open>
  \<open>hashSync\<close> stands for \<^verbatim>\<open>bcrypt.hashSync(_, 10)\<close> with the salt of this call. The body
  fields are \<open>None\<close> when absent. The result is the response, the new server state and the
  session's \<^verbatim>\<open>userId\<close> afterwards.
\<close>

definition signup ::
  "(string \<Rightarrow> 'v) \<Rightarrow> 'v server \<Rightarrow> string option \<Rightarrow> string option \<Rightarrow> string option
   \<Rightarrow> response \<times> 'v server \<times> string option" where
  "signup hashSync s userId username password =
     (case username of
        None \<Rightarrow> (Send 200 ''username and password required'', s, userId)
      | Some u \<Rightarrow>
          (case password of
             None \<Rightarrow> (Send 200 ''username and password required'', s, userId)
           | Some p \<Rightarrow>
               if u = [] \<or> p = [] then (Send 200 ''username and password required'', s, userId)
               else if users_truthy (users s) u then (Send 200 ''username already exists'', s, userId)
               else
                 (let us = (users s)(u \<mapsto> hashSync p);
                      s1 = s\<lparr>users := us, users_file := us\<rparr>
                  in case ensure_namespace (files s1) u of
                       Inl e \<Rightarrow> (Throw e, s1, userId)
                     | Inr (fs', userDir) \<Rightarrow>
                         (Redirect ''/files.html'', s1\<lparr>files := fs'\<rparr>, Some u))))"

section \<open>Upload\<close>

text \<open>
  What formidable hands to the callback: for every field of the form either one file
  object or an array of them, in the order of \<^verbatim>\<open>Object.keys(files)\<close>. A file object has
  the name the client sent in the part's header (any string, slashes and dots included),
  the path formidable stored the bytes at, and the bytes. The handler asks
  \<^verbatim>\<open>Array.isArray\<close> and takes both shapes; formidable 3, which the import
  \<^verbatim>\<open>import { formidable } from 'formidable'\<close> loads, hands an array for every field.
\<close>

record ffile =
  originalFilename :: string
  filepath :: path
  content :: string

datatype file_field = One ffile | Many "ffile list"

datatype parse_result = ParseError | Parsed "file_field list"

definition field_files :: "file_field \<Rightarrow> ffile list" where
  "field_files file = (case file of One f \<Rightarrow> [f] | Many fs \<Rightarrow> fs)"

text \<open>The bytes formidable has stored when it calls back.\<close>

definition store_file :: "ffile \<Rightarrow> filesystem \<Rightarrow> filesystem" where
  "store_file f fs = fs(filepath f \<mapsto> File (content f))"

definition formidable_store :: "filesystem \<Rightarrow> file_field list \<Rightarrow> filesystem" where
  "formidable_store fs batch = fold store_file (concat (map field_files batch)) fs"

text \<open>\<^verbatim>\<open>Array.isArray(file) ? file[0] : file\<close>; \<open>None\<close> is \<^verbatim>\<open>undefined\<close>.\<close>

definition first_of :: "file_field \<Rightarrow> ffile option" where
  "first_of file =
     (case file of
        One f \<Rightarrow> Some f
      | Many fs \<Rightarrow> (case fs of [] \<Rightarrow> None | f # rest \<Rightarrow> Some f))"

text \<open>\<^verbatim>\<open>Array.isArray(files[key]) ? files[key][i] : files[key]\<close>.\<close>

definition nth_of :: "nat \<Rightarrow> file_field \<Rightarrow> ffile option" where
  "nth_of i file =
     (case file of
        One f \<Rightarrow> Some f
      | Many fs \<Rightarrow> (if i < length fs then Some (fs ! i) else None))"

text \<open>
  The loop that moves the files. An exception leaves the loop with the renames done so
  far in place.
\<close>

fun rename_loop ::
  "filesystem \<Rightarrow> path \<Rightarrow> file_field list \<Rightarrow> (error \<times> filesystem) + filesystem" where
  "rename_loop fs uploadPath [] = Inr fs"
| "rename_loop fs uploadPath (file # rest) =
     (case first_of file of
        None \<Rightarrow> Inl (TypeError, fs)
      | Some f \<Rightarrow>
          (case renameSync fs (filepath f) (join_onto uploadPath [originalFilename f]) of
             Inl e \<Rightarrow> Inl (e, fs)
           | Inr fs' \<Rightarrow> rename_loop fs' uploadPath rest))"

text \<open>The file objects the index page is built from: \<open>i\<close> is the position of the key.\<close>

fun index_objs :: "nat \<Rightarrow> file_field list \<Rightarrow> error + ffile list" where
  "index_objs i [] = Inr []"
| "index_objs i (file # rest) =
     (case nth_of i file of
        None \<Rightarrow> Inl TypeError
      | Some f \<Rightarrow>
          (case index_objs (Suc i) rest of
             Inl e \<Rightarrow> Inl e
           | Inr objs \<Rightarrow> Inr (f # objs)))"

definition download_link :: "string \<Rightarrow> string \<Rightarrow> string \<Rightarrow> string" where
  "download_link userId uploadFolderName name =
     ''/download/'' @ userId @ ''/'' @ uploadFolderName @ ''/'' @ name"

definition button :: "string \<Rightarrow> string \<Rightarrow> string \<Rightarrow> string" where
  "button userId uploadFolderName name =
     ''<button onclick='' @ [CHR 0x22] @ ''window.location.href='' @ [CHR 0x27]
       @ download_link userId uploadFolderName name @ [CHR 0x27, CHR 0x22]
       @ ''>download '' @ name @ ''</button>''"

fun join_with :: "string \<Rightarrow> string list \<Rightarrow> string" where
  "join_with sep [] = []"
| "join_with sep [x] = x"
| "join_with sep (x # y # zs) = x @ sep @ join_with sep (y # zs)"

definition index_page :: "string \<Rightarrow> string" where
  "index_page downloadButtons =
     ''\<newline>      <!DOCTYPE html>\<newline>      <html lang='' @ [CHR 0x22] @ ''en'' @ [CHR 0x22]
       @ ''>\<newline>      <head><meta charset='' @ [CHR 0x22] @ ''UTF-8'' @ [CHR 0x22]
       @ ''><title>upzload - download files</title></head>\<newline>      <body>\<newline>''
       @ ''        <h1>download this shared file</h1>\<newline>        '' @ downloadButtons
       @ ''\<newline>      </body>\<newline>      </html>\<newline>    ''"

definition index_html :: "string \<Rightarrow> string \<Rightarrow> ffile list \<Rightarrow> string" where
  "index_html userId uploadFolderName objs =
     index_page (join_with ''<br>'' (map (\<lambda>f. button userId uploadFolderName (originalFilename f)) objs))"

text \<open>The callback of \<^verbatim>\<open>form.parse\<close>.\<close>

definition upload_callback ::
  "filesystem \<Rightarrow> string \<Rightarrow> string \<Rightarrow> path \<Rightarrow> parse_result \<Rightarrow> response \<times> filesystem" where
  "upload_callback fs userId uploadFolderName uploadPath parsed =
     (case parsed of
        ParseError \<Rightarrow> (Send 500 ''upload failed'', fs)
      | Parsed batch \<Rightarrow>
          (let fs1 = formidable_store fs batch in
           if length batch = 0 then (Send 400 ''no files uploaded'', fs1)
           else
             (case rename_loop fs1 uploadPath batch of
                Inl (e, fs2) \<Rightarrow> (Throw e, fs2)
              | Inr fs2 \<Rightarrow>
                  (case index_objs 0 batch of
                     Inl e \<Rightarrow> (Throw e, fs2)
                   | Inr objs \<Rightarrow>
                       (case writeFileSync fs2 (join_onto uploadPath [''index.html''])
                               (index_html userId uploadFolderName objs) of
                          Inl e \<Rightarrow> (Throw e, fs2)
                        | Inr fs3 \<Rightarrow> (Send 200 ''upload successful'', fs3))))))"

text \<open>
  The handler of \<^verbatim>\<open>POST /api/upload\<close>. \<open>uploadFolderName\<close> is the value of
  \<^verbatim>\<open>crypto.randomBytes(3).toString('hex')\<close> for this request, \<open>parsed\<close> what formidable
  makes of the request body.
\<close>

definition upload ::
  "filesystem \<Rightarrow> string option \<Rightarrow> string \<Rightarrow> parse_result \<Rightarrow> response \<times> filesystem" where
  "upload fs userId uploadFolderName parsed =
     (case userId of
        None \<Rightarrow> (Redirect ''/'', fs)
      | Some uid \<Rightarrow>
          if uid = [] then (Redirect ''/'', fs)
          else
            (case ensure_namespace fs uid of
               Inl e \<Rightarrow> (Throw e, fs)
             | Inr (fs1, userDir) \<Rightarrow>
                 (let uploadPath = join_onto userDir [uploadFolderName] in
                  case mkdirSync_recursive fs1 uploadPath of
                    Inl e \<Rightarrow> (Throw e, fs1)
                  | Inr fs2 \<Rightarrow> upload_callback fs2 uid uploadFolderName uploadPath parsed)))"

section \<open>Facts about the file system\<close>

lemma node_at_upd_same: "node_at (fs(p \<mapsto> Dir)) p = Some Dir"
  by (simp add: node_at_def)

lemma node_at_None: "node_at fs p = None \<Longrightarrow> fs p = None"
  by (simp add: node_at_def split: if_splits)

lemma node_at_upd_other: "q \<noteq> p \<Longrightarrow> node_at (fs(p \<mapsto> n)) q = node_at fs q"
  by (simp add: node_at_def)

lemma mkdir_from_keeps:
  "mkdir_from fs pre xs = Inr fs' \<Longrightarrow> node_at fs q = Some n \<Longrightarrow> node_at fs' q = Some n"
proof (induction xs arbitrary: fs pre)
  case Nil
  then show ?case by simp
next
  case (Cons x xs)
  show ?case
  proof (cases "node_at fs (pre @ [x])")
    case None
    with Cons.prems(2) have "q \<noteq> pre @ [x]" by auto
    then have "node_at (fs(pre @ [x] \<mapsto> Dir)) q = Some n"
      using Cons.prems(2) by (simp add: node_at_upd_other)
    moreover from None Cons.prems(1)
    have "mkdir_from (fs(pre @ [x] \<mapsto> Dir)) (pre @ [x]) xs = Inr fs'" by simp
    ultimately show ?thesis by (rule Cons.IH[rotated])
  next
    case (Some a)
    with Cons show ?thesis by (cases a) auto
  qed
qed

lemma mkdir_from_prefixes:
  "mkdir_from fs pre xs = Inr fs' \<Longrightarrow> 0 < k \<Longrightarrow> k \<le> length xs \<Longrightarrow>
   node_at fs' (pre @ take k xs) = Some Dir"
proof (induction xs arbitrary: fs pre k)
  case Nil
  then show ?case by simp
next
  case (Cons x xs)
  obtain fs1 where fs1: "mkdir_from fs1 (pre @ [x]) xs = Inr fs'"
    and d: "node_at fs1 (pre @ [x]) = Some Dir"
  proof (cases "node_at fs (pre @ [x])")
    case None
    with Cons.prems(1) that[of "fs(pre @ [x] \<mapsto> Dir)"] show ?thesis
      by (simp add: node_at_upd_same)
  next
    case (Some a)
    with Cons.prems(1) that[of fs] show ?thesis by (cases a) auto
  qed
  show ?case
  proof (cases k)
    case 0
    with Cons.prems show ?thesis by simp
  next
    case (Suc j)
    show ?thesis
    proof (cases "j = 0")
      case True
      with Suc mkdir_from_keeps[OF fs1 d] show ?thesis by simp
    next
      case False
      with Suc Cons.prems Cons.IH[OF fs1, of j] show ?thesis by simp
    qed
  qed
qed

lemma mkdir_from_frame:
  "mkdir_from fs pre xs = Inr fs' \<Longrightarrow> fs' q \<noteq> fs q \<Longrightarrow>
   fs q = None \<and> fs' q = Some Dir \<and> (\<exists>k. 0 < k \<and> k \<le> length xs \<and> q = pre @ take k xs)"
proof (induction xs arbitrary: fs pre)
  case Nil
  then show ?case by simp
next
  case (Cons x xs)
  show ?case
  proof (cases "node_at fs (pre @ [x])")
    case None
    let ?fs1 = "fs(pre @ [x] \<mapsto> Dir)"
    from None Cons.prems(1) have m: "mkdir_from ?fs1 (pre @ [x]) xs = Inr fs'" by simp
    show ?thesis
    proof (cases "fs' q = ?fs1 q")
      case True
      with Cons.prems(2) have q: "q = pre @ [x]" by (auto split: if_splits)
      with True None have "fs q = None \<and> fs' q = Some Dir" by (simp add: node_at_None)
      moreover from q have "0 < (1::nat) \<and> 1 \<le> length (x # xs) \<and> q = pre @ take 1 (x # xs)" by simp
      ultimately show ?thesis by blast
    next
      case False
      from Cons.IH[OF m False] obtain k where
        k: "?fs1 q = None" "fs' q = Some Dir" "0 < k" "k \<le> length xs" "q = (pre @ [x]) @ take k xs"
        by blast
      from k(1) have "fs q = None" by (auto split: if_splits)
      moreover from k have "0 < Suc k \<and> Suc k \<le> length (x # xs) \<and> q = pre @ take (Suc k) (x # xs)" by simp
      ultimately show ?thesis using k(2) by blast
    qed
  next
    case (Some a)
    with Cons show ?thesis
    proof (cases a)
      case (File c)
      with Some Cons.prems show ?thesis by simp
    next
      case Dir
      with Some Cons.prems(1) have m: "mkdir_from fs (pre @ [x]) xs = Inr fs'" by simp
      from Cons.IH[OF m Cons.prems(2)] obtain k where
        k: "fs q = None" "fs' q = Some Dir" "0 < k" "k \<le> length xs" "q = (pre @ [x]) @ take k xs"
        by blast
      then have "0 < Suc k \<and> Suc k \<le> length (x # xs) \<and> q = pre @ take (Suc k) (x # xs)" by simp
      with k(1,2) show ?thesis by blast
    qed
  qed
qed

lemma mkdir_from_fails:
  "mkdir_from fs pre xs = Inl e \<Longrightarrow>
   \<exists>k c. 0 < k \<and> k \<le> length xs \<and> node_at fs (pre @ take k xs) = Some (File c)"
proof (induction xs arbitrary: fs pre)
  case Nil
  then show ?case by simp
next
  case (Cons x xs)
  show ?case
  proof (cases "node_at fs (pre @ [x])")
    case None
    let ?fs1 = "fs(pre @ [x] \<mapsto> Dir)"
    from None Cons.prems have "mkdir_from ?fs1 (pre @ [x]) xs = Inl e" by simp
    from Cons.IH[OF this] obtain k c where
      k: "0 < k" "k \<le> length xs" "node_at ?fs1 ((pre @ [x]) @ take k xs) = Some (File c)" by blast
    from k(1,2) have "(pre @ [x]) @ take k xs \<noteq> pre @ [x]" by (cases xs) auto
    with k(3) have "node_at fs ((pre @ [x]) @ take k xs) = Some (File c)"
      by (simp add: node_at_upd_other)
    with k(1,2) have "0 < Suc k \<and> Suc k \<le> length (x # xs) \<and>
        node_at fs (pre @ take (Suc k) (x # xs)) = Some (File c)" by simp
    then show ?thesis by blast
  next
    case (Some a)
    show ?thesis
    proof (cases a)
      case (File c)
      with Some have "0 < (1::nat) \<and> 1 \<le> length (x # xs) \<and>
        node_at fs (pre @ take 1 (x # xs)) = Some (File c)" by simp
      then show ?thesis by blast
    next
      case Dir
      with Some Cons.prems have "mkdir_from fs (pre @ [x]) xs = Inl e" by simp
      from Cons.IH[OF this] obtain k c where
        "0 < k" "k \<le> length xs" "node_at fs ((pre @ [x]) @ take k xs) = Some (File c)" by blast
      then have "0 < Suc k \<and> Suc k \<le> length (x # xs) \<and>
        node_at fs (pre @ take (Suc k) (x # xs)) = Some (File c)" by simp
      then show ?thesis by blast
    qed
  qed
qed

section \<open>Facts about namespaces\<close>

lemma ensure_created:
  assumes "\<not> existsSync fs (path_join [UPLOAD_DIR, username])"
    and "ensure_namespace fs username = Inr (fs', p')"
  shows "mkdir_from fs [] (path_join [UPLOAD_DIR, username]) = Inr fs'"
    and "p' = path_join [UPLOAD_DIR, username]"
  using assms by (auto simp: ensure_namespace_def Let_def mkdirSync_recursive_def split: sum.splits)

lemma ensure_failed:
  "ensure_namespace fs username = Inl e \<Longrightarrow>
   mkdir_from fs [] (path_join [UPLOAD_DIR, username]) = Inl e"
  by (auto simp: ensure_namespace_def Let_def mkdirSync_recursive_def split: sum.splits if_splits)

lemma ensure_exists:
  "existsSync fs (path_join [UPLOAD_DIR, username]) \<Longrightarrow>
   ensure_namespace fs username = Inr (fs, path_join [UPLOAD_DIR, username])"
  by (simp add: ensure_namespace_def)



section \<open>Namespace creation\<close>




section \<open>The download route\<close>




section \<open>Sign up\<close>

text \<open>
  Claim C7. Signing up with a missing or empty username or password is refused with
  "username and password required"; signing up with a username that is already stored
  is refused with "username already exists"; in both cases the server state is returned
  unchanged, so the stored verifier stays what the first sign-up wrote. After a first
  sign-up of a new username the table (in memory and on disk) holds the verifier of that
  sign-up, and a second sign-up of the same name is refused and changes nothing.
\<close>

theorem signup_rejects:
  "(username = None \<or> username = Some [] \<or> password = None \<or> password = Some [] \<longrightarrow>
      signup hashSync s userId username password
        = (Send 200 ''username and password required'', s, userId))
   \<and> (u \<noteq> [] \<and> p \<noteq> [] \<and> users s u = Some v \<longrightarrow>
      signup hashSync s userId (Some u) (Some p) = (Send 200 ''username already exists'', s, userId))
   \<and> (u \<noteq> [] \<and> p \<noteq> [] \<and> p' \<noteq> [] \<and> \<not> users_truthy (users s) u \<longrightarrow>
      users (fst (snd (signup hashSync s userId (Some u) (Some p)))) u = Some (hashSync p)
      \<and> users_file (fst (snd (signup hashSync s userId (Some u) (Some p)))) u = Some (hashSync p)
      \<and> signup hashSync' (fst (snd (signup hashSync s userId (Some u) (Some p)))) userId' (Some u) (Some p')
          = (Send 200 ''username already exists'',
             fst (snd (signup hashSync s userId (Some u) (Some p))), userId'))"
proof (intro conjI impI)
  assume "username = None \<or> username = Some [] \<or> password = None \<or> password = Some []"
  then show "signup hashSync s userId username password
        = (Send 200 ''username and password required'', s, userId)"
    by (auto simp: signup_def split: option.splits)
next
  assume "u \<noteq> [] \<and> p \<noteq> [] \<and> users s u = Some v"
  then show "signup hashSync s userId (Some u) (Some p) = (Send 200 ''username already exists'', s, userId)"
    by (simp add: signup_def users_truthy_def)
next
  assume a: "u \<noteq> [] \<and> p \<noteq> [] \<and> p' \<noteq> [] \<and> \<not> users_truthy (users s) u"
  let ?s1 = "fst (snd (signup hashSync s userId (Some u) (Some p)))"
  from a have u: "users ?s1 u = Some (hashSync p)"
    by (simp add: signup_def Let_def split: sum.splits prod.splits)
  from a show "users_file ?s1 u = Some (hashSync p)"
    by (simp add: signup_def Let_def split: sum.splits prod.splits)
  from u show "users ?s1 u = Some (hashSync p)" .
  from a u show "signup hashSync' ?s1 userId' (Some u) (Some p') = (Send 200 ''username already exists'', ?s1, userId')"
    by (simp add: signup_def users_truthy_def)
qed


theorem signup_rejects_witness:
  "signup (\<lambda>p. ''H:'' @ p) \<lparr>users = Map.empty, users_file = Map.empty, files = Map.empty\<rparr>
       None (Some ''carol'') (Some [])
     = (Send 200 ''username and password required'',
        \<lparr>users = Map.empty, users_file = Map.empty, files = Map.empty\<rparr>, None)
   \<and> signup (\<lambda>p. ''H:'' @ p)
       \<lparr>users = [''alice'' \<mapsto> ''H:pw123''], users_file = [''alice'' \<mapsto> ''H:pw123''],
        files = Map.empty\<rparr> None (Some ''alice'') (Some ''other'')
     = (Send 200 ''username already exists'',
        \<lparr>users = [''alice'' \<mapsto> ''H:pw123''], users_file = [''alice'' \<mapsto> ''H:pw123''],
         files = Map.empty\<rparr>, None)
   \<and> \<not> users_truthy (Map.empty :: string \<Rightarrow> string option) ''alice''
   \<and> users (fst (snd (signup (\<lambda>p. ''H:'' @ p)
          \<lparr>users = Map.empty, users_file = Map.empty, files = Map.empty\<rparr>
          None (Some ''alice'') (Some ''pw123'')))) ''alice'' = Some ''H:pw123''
   \<and> fst (signup (\<lambda>p. ''G:'' @ p)
         (fst (snd (signup (\<lambda>p. ''H:'' @ p)
            \<lparr>users = Map.empty, users_file = Map.empty, files = Map.empty\<rparr>
            None (Some ''alice'') (Some ''pw123''))))
         None (Some ''alice'') (Some ''other''))
     = Send 200 ''username already exists''"
proof -
  let ?h = "\<lambda>p. ''H:'' @ p"
  let ?s0 = "\<lparr>users = Map.empty, users_file = Map.empty, files = Map.empty\<rparr> :: string server"
  let ?sA = "\<lparr>users = [''alice'' \<mapsto> ''H:pw123''], users_file = [''alice'' \<mapsto> ''H:pw123''],
        files = Map.empty\<rparr> :: string server"
  have n: "\<not> users_truthy (Map.empty :: string \<Rightarrow> string option) ''alice''"
    by (simp add: users_truthy_def object_prototype_keys_def)
  have 1: "signup ?h ?s0 None (Some ''carol'') (Some [])
     = (Send 200 ''username and password required'', ?s0, None)"
    using signup_rejects[where username = "Some ''carol''" and password = "Some []"
        and hashSync = ?h and s = ?s0 and userId = None] by simp
  have 2: "signup ?h ?sA None (Some ''alice'') (Some ''other'')
     = (Send 200 ''username already exists'', ?sA, None)"
    using signup_rejects[where u = "''alice''" and p = "''other''" and v = "''H:pw123''"
        and hashSync = ?h and s = ?sA and userId = None] by simp
  have 3: "users (fst (snd (signup ?h ?s0 None (Some ''alice'') (Some ''pw123'')))) ''alice''
       = Some ''H:pw123''
     \<and> fst (signup (\<lambda>p. ''G:'' @ p) (fst (snd (signup ?h ?s0 None (Some ''alice'') (Some ''pw123''))))
         None (Some ''alice'') (Some ''other'')) = Send 200 ''username already exists''"
    using n signup_rejects[where u = "''alice''" and p = "''pw123''" and p' = "''other''"
        and hashSync = ?h and hashSync' = "\<lambda>p. ''G:'' @ p" and s = ?s0 and userId = None
        and userId' = None] by simp
  from n 1 2 3 show ?thesis by blast
qed

section \<open>Facts about the upload handler\<close>

lemma writeFileSync_Inr:
  "writeFileSync fs p d = Inr fs' \<Longrightarrow> fs' = fs(p \<mapsto> File d)"
  by (auto simp: writeFileSync_def split: option.splits node.splits)

lemma ensure_path:
  "ensure_namespace fs username = Inr (fs', p') \<Longrightarrow> p' = path_join [UPLOAD_DIR, username]"
  by (auto simp: ensure_namespace_def Let_def split: if_splits sum.splits)

lemma upload_success:
  assumes "upload fs (Some uid) folder (Parsed batch) = (Send 200 ''upload successful'', fs')"
  shows "\<exists>fs1 fs2 fs3 objs.
     uid \<noteq> [] \<and> batch \<noteq> []
     \<and> ensure_namespace fs uid = Inr (fs1, path_join [UPLOAD_DIR, uid])
     \<and> mkdirSync_recursive fs1 (join_onto (path_join [UPLOAD_DIR, uid]) [folder]) = Inr fs2
     \<and> rename_loop (formidable_store fs2 batch) (join_onto (path_join [UPLOAD_DIR, uid]) [folder]) batch
           = Inr fs3
     \<and> index_objs 0 batch = Inr objs
     \<and> writeFileSync fs3 (join_onto (join_onto (path_join [UPLOAD_DIR, uid]) [folder]) [''index.html''])
           (index_html uid folder objs) = Inr fs'"
proof -
  from assms have u: "uid \<noteq> []"
    by (auto simp: upload_def split: if_splits)
  from assms u obtain fs1 userDir where e: "ensure_namespace fs uid = Inr (fs1, userDir)"
    by (auto simp: upload_def split: sum.splits)
  from ensure_path[OF e] have ud: "userDir = path_join [UPLOAD_DIR, uid]" .
  let ?P = "join_onto (path_join [UPLOAD_DIR, uid]) [folder]"
  from assms u e ud obtain fs2 where m: "mkdirSync_recursive fs1 ?P = Inr fs2"
    by (auto simp: upload_def Let_def split: sum.splits)
  from assms u e ud m have cb:
    "upload_callback fs2 uid folder ?P (Parsed batch) = (Send 200 ''upload successful'', fs')"
    by (simp add: upload_def Let_def)
  then have b: "batch \<noteq> []"
    by (auto simp: upload_callback_def Let_def)
  from cb b obtain fs3 where r: "rename_loop (formidable_store fs2 batch) ?P batch = Inr fs3"
    by (auto simp: upload_callback_def Let_def split: sum.splits prod.splits)
  from cb b r obtain objs where i: "index_objs 0 batch = Inr objs"
    by (auto simp: upload_callback_def Let_def split: sum.splits prod.splits)
  from cb b r i have w: "writeFileSync fs3 (join_onto ?P [''index.html'']) (index_html uid folder objs) = Inr fs'"
    by (auto simp: upload_callback_def Let_def split: sum.splits prod.splits)
  from u b e ud m r i w show ?thesis by blast
qed

section \<open>Facts about plain names\<close>

lemma split_at_none: "\<forall>c\<in>set s. \<not> sep c \<Longrightarrow> split_at sep s = [s]"
  by (induction s) auto

lemma split_slash_plain: "plain s \<Longrightarrow> split_slash s = [s]"
  using split_at_none[of s "\<lambda>c. c = CHR ''/''"] by (auto simp: plain_def split_slash_def)

lemma normalize_plain:
  "\<forall>s\<in>set ss. plain s \<Longrightarrow> normalize_segs acc ss = rev acc @ ss"
  by (induction ss arbitrary: acc) (auto simp: plain_def)

lemma concat_split_plain:
  "\<forall>a\<in>set args. plain a \<Longrightarrow> concat (map split_slash args) = args"
  by (induction args) (auto simp: split_slash_plain)

lemma join_onto_plain:
  "\<forall>s\<in>set p. plain s \<Longrightarrow> \<forall>a\<in>set args. plain a \<Longrightarrow> join_onto p args = p @ args"
  using normalize_plain[of "p @ args" "[]"] by (auto simp: join_onto_def concat_split_plain)

lemma split_UPLOAD_DIR: "split_slash UPLOAD_DIR = [''.'', ''uploads'']"
  by (simp add: UPLOAD_DIR_def split_slash_def)

lemma path_join_uploads_plain:
  "\<forall>a\<in>set args. plain a \<Longrightarrow> path_join (UPLOAD_DIR # args) = ''uploads'' # args"
proof -
  assume a: "\<forall>a\<in>set args. plain a"
  have "plain ''uploads''" by (simp add: plain_def)
  with a have "\<forall>s\<in>set (''uploads'' # args). plain s" by simp
  from normalize_plain[OF this, of "[]"] a show ?thesis
    by (simp add: path_join_def join_onto_def split_UPLOAD_DIR concat_split_plain)
qed

section \<open>Facts about an empty batch\<close>

lemma upload_empty:
  "uid \<noteq> [] \<Longrightarrow>
   upload fs (Some uid) folder (Parsed []) =
     (case ensure_namespace fs uid of
        Inl e \<Rightarrow> (Throw e, fs)
      | Inr (fs1, userDir) \<Rightarrow>
          (case mkdirSync_recursive fs1 (join_onto userDir [folder]) of
             Inl e \<Rightarrow> (Throw e, fs1)
           | Inr fs2 \<Rightarrow> (Send 400 ''no files uploaded'', fs2)))"
  by (simp add: upload_def upload_callback_def formidable_store_def Let_def
      split: sum.splits prod.splits)

lemma ensure_frame:
  assumes "ensure_namespace fs uid = Inr (fs1, U)" and "fs1 q \<noteq> fs q"
  shows "fs q = None \<and> fs1 q = Some Dir \<and> (\<exists>k. q = take k U)"
proof (cases "existsSync fs (path_join [UPLOAD_DIR, uid])")
  case True
  with assms show ?thesis by (simp add: ensure_exists)
next
  case False
  note m = ensure_created[OF False assms(1)]
  from mkdir_from_frame[OF m(1) assms(2)] m(2) show ?thesis by auto
qed

lemma node_at_File: "node_at fs q = Some (File c) \<Longrightarrow> fs q = Some (File c)"
  by (simp add: node_at_def split: if_splits)

lemma node_at_cong_at: "fs' q = fs q \<Longrightarrow> node_at fs' q = node_at fs q"
  by (simp add: node_at_def)

lemma ensure_file_before:
  assumes "ensure_namespace fs uid = Inr (fs1, U)" and "node_at fs1 q = Some (File c)"
  shows "node_at fs q = Some (File c)"
proof (cases "fs1 q = fs q")
  case True
  from node_at_cong_at[of fs1 q fs, OF this] assms(2) show ?thesis by simp
next
  case False
  from ensure_frame[OF assms(1) False] node_at_File[OF assms(2)] show ?thesis by simp
qed

lemma mkdirSync_dir:
  assumes "mkdirSync_recursive fs p = Inr fs'"
  shows "node_at fs' p = Some Dir"
proof (cases "p = []")
  case True
  then show ?thesis by (simp add: node_at_def)
next
  case False
  then have "0 < length p" by simp
  from mkdir_from_prefixes[OF assms[unfolded mkdirSync_recursive_def] this] show ?thesis by simp
qed

lemma mkdirSync_frame:
  assumes "mkdirSync_recursive fs p = Inr fs'" and "fs' q \<noteq> fs q"
  shows "fs q = None \<and> fs' q = Some Dir \<and> (\<exists>k. q = take k p)"
  using mkdir_from_frame[OF assms(1)[unfolded mkdirSync_recursive_def] assms(2)] by auto

lemma empty_batch_result:
  assumes u: "uid \<noteq> []"
    and r: "upload fs (Some uid) folder (Parsed []) = (Send 400 ''no files uploaded'', fs')"
  shows "\<exists>fs1. ensure_namespace fs uid = Inr (fs1, path_join [UPLOAD_DIR, uid])
     \<and> mkdirSync_recursive fs1 (join_onto (path_join [UPLOAD_DIR, uid]) [folder]) = Inr fs'"
proof -
  from r u obtain fs1 U where e: "ensure_namespace fs uid = Inr (fs1, U)"
    by (auto simp: upload_empty split: sum.splits)
  from ensure_path[OF e] have U: "U = path_join [UPLOAD_DIR, uid]" .
  from r u e U have "mkdirSync_recursive fs1 (join_onto (path_join [UPLOAD_DIR, uid]) [folder]) = Inr fs'"
    by (auto simp: upload_empty split: sum.splits)
  with e U show ?thesis by blast
qed

section \<open>An empty batch\<close>

text \<open>
  Claim C6, as the code has it. An upload of zero files by a logged-in user is answered
  with 400 "no files uploaded", or an exception of the file system leaves the handler;
  it is 400 whenever no regular file stands on the way to the user's directory or to the
  upload folder. The failed upload leaves every entry that existed unchanged, but the
  upload folder, created before the body is parsed, stays behind as a directory: the only
  entries that differ are directories added on the way to the user's directory or to the
  upload folder, and for plain names the new folder shows in the listing of the user's
  directory.
\<close>

theorem empty_batch_keeps_folder:
  "uid \<noteq> [] \<Longrightarrow>
   (fst (upload fs (Some uid) folder (Parsed [])) = Send 400 ''no files uploaded''
      \<or> (\<exists>e. fst (upload fs (Some uid) folder (Parsed [])) = Throw e))
   \<and> ((\<forall>k c. node_at fs (take k (path_join [UPLOAD_DIR, uid])) \<noteq> Some (File c)) \<and>
       (\<forall>k c. node_at fs (take k (join_onto (path_join [UPLOAD_DIR, uid]) [folder])) \<noteq> Some (File c))
       \<longrightarrow> fst (upload fs (Some uid) folder (Parsed [])) = Send 400 ''no files uploaded'')
   \<and> (upload fs (Some uid) folder (Parsed []) = (Send 400 ''no files uploaded'', fs') \<longrightarrow>
        node_at fs' (join_onto (path_join [UPLOAD_DIR, uid]) [folder]) = Some Dir
        \<and> (\<forall>q. fs q \<noteq> None \<longrightarrow> fs' q = fs q)
        \<and> (\<forall>q. fs' q \<noteq> fs q \<longrightarrow> fs' q = Some Dir \<and>
              (\<exists>k. q = take k (path_join [UPLOAD_DIR, uid])
                 \<or> q = take k (join_onto (path_join [UPLOAD_DIR, uid]) [folder]))))
   \<and> (plain uid \<and> plain folder \<and>
       upload fs (Some uid) folder (Parsed []) = (Send 400 ''no files uploaded'', fs') \<longrightarrow>
        fs' [''uploads'', uid, folder] = Some Dir \<and> folder \<in> entries fs' [''uploads'', uid])"
proof (intro conjI impI allI)
  assume u: "uid \<noteq> []"
  then show "fst (upload fs (Some uid) folder (Parsed [])) = Send 400 ''no files uploaded''
      \<or> (\<exists>e. fst (upload fs (Some uid) folder (Parsed [])) = Throw e)"
    by (auto simp: upload_empty split: sum.splits)
next
  let ?U = "path_join [UPLOAD_DIR, uid]"
  let ?P = "join_onto ?U [folder]"
  assume u: "uid \<noteq> []"
    and n: "(\<forall>k c. node_at fs (take k ?U) \<noteq> Some (File c)) \<and>
       (\<forall>k c. node_at fs (take k ?P) \<noteq> Some (File c))"
  obtain fs1 where e: "ensure_namespace fs uid = Inr (fs1, ?U)"
  proof (cases "ensure_namespace fs uid")
    case (Inl e)
    from mkdir_from_fails[OF ensure_failed[OF Inl]] n show ?thesis by auto
  next
    case (Inr a)
    then obtain fs1 U where "ensure_namespace fs uid = Inr (fs1, U)" by (cases a) auto
    with ensure_path[OF this] that show ?thesis by simp
  qed
  obtain fs2 where m: "mkdirSync_recursive fs1 ?P = Inr fs2"
  proof (cases "mkdirSync_recursive fs1 ?P")
    case (Inl e')
    from mkdir_from_fails[OF Inl[unfolded mkdirSync_recursive_def]] obtain k c where
      "node_at fs1 (take k ?P) = Some (File c)" by auto
    from ensure_file_before[OF e this] n show ?thesis by blast
  next
    case (Inr a)
    with that show ?thesis by simp
  qed
  from u e m show "fst (upload fs (Some uid) folder (Parsed [])) = Send 400 ''no files uploaded''"
    by (simp add: upload_empty)
next
  assume u: "uid \<noteq> []"
    and r: "upload fs (Some uid) folder (Parsed []) = (Send 400 ''no files uploaded'', fs')"
  from empty_batch_result[OF u r] obtain fs1 where
    e: "ensure_namespace fs uid = Inr (fs1, path_join [UPLOAD_DIR, uid])" and
    m: "mkdirSync_recursive fs1 (join_onto (path_join [UPLOAD_DIR, uid]) [folder]) = Inr fs'"
    by blast
  from mkdirSync_dir[OF m]
  show "node_at fs' (join_onto (path_join [UPLOAD_DIR, uid]) [folder]) = Some Dir" .
next
  fix q
  assume u: "uid \<noteq> []"
    and r: "upload fs (Some uid) folder (Parsed []) = (Send 400 ''no files uploaded'', fs')"
    and q: "fs q \<noteq> None"
  from empty_batch_result[OF u r] obtain fs1 where
    e: "ensure_namespace fs uid = Inr (fs1, path_join [UPLOAD_DIR, uid])" and
    m: "mkdirSync_recursive fs1 (join_onto (path_join [UPLOAD_DIR, uid]) [folder]) = Inr fs'"
    by blast
  from q ensure_frame[OF e, of q] have 1: "fs1 q = fs q" by (cases "fs1 q = fs q") auto
  with q mkdirSync_frame[OF m, of q] have "fs' q = fs1 q" by (cases "fs' q = fs1 q") auto
  with 1 show "fs' q = fs q" by simp
next
  fix q
  assume u: "uid \<noteq> []"
    and r: "upload fs (Some uid) folder (Parsed []) = (Send 400 ''no files uploaded'', fs')"
    and q: "fs' q \<noteq> fs q"
  from empty_batch_result[OF u r] obtain fs1 where
    e: "ensure_namespace fs uid = Inr (fs1, path_join [UPLOAD_DIR, uid])" and
    m: "mkdirSync_recursive fs1 (join_onto (path_join [UPLOAD_DIR, uid]) [folder]) = Inr fs'"
    by blast
  have "fs' q = Some Dir \<and> (\<exists>k. q = take k (path_join [UPLOAD_DIR, uid])
                 \<or> q = take k (join_onto (path_join [UPLOAD_DIR, uid]) [folder]))"
  proof (cases "fs' q = fs1 q")
    case True
    with q have "fs1 q \<noteq> fs q" by simp
    from ensure_frame[OF e this] True show ?thesis by auto
  next
    case False
    from mkdirSync_frame[OF m False] show ?thesis by auto
  qed
  then show "fs' q = Some Dir" and "\<exists>k. q = take k (path_join [UPLOAD_DIR, uid])
                 \<or> q = take k (join_onto (path_join [UPLOAD_DIR, uid]) [folder])" by blast+
next
  assume u: "uid \<noteq> []"
    and r: "plain uid \<and> plain folder \<and>
       upload fs (Some uid) folder (Parsed []) = (Send 400 ''no files uploaded'', fs')"
  from empty_batch_result[OF u] r obtain fs1 where
    m: "mkdirSync_recursive fs1 (join_onto (path_join [UPLOAD_DIR, uid]) [folder]) = Inr fs'"
    by blast
  from r have U: "path_join [UPLOAD_DIR, uid] = [''uploads'', uid]"
    by (simp add: path_join_uploads_plain)
  have "plain ''uploads''" by (simp add: plain_def)
  with r have P: "join_onto [''uploads'', uid] [folder] = [''uploads'', uid, folder]"
    by (simp add: join_onto_plain)
  from mkdirSync_dir[OF m] U P have "node_at fs' [''uploads'', uid, folder] = Some Dir" by simp
  then show d: "fs' [''uploads'', uid, folder] = Some Dir"
    by (simp add: node_at_def)
  then show "folder \<in> entries fs' [''uploads'', uid]"
    by (simp add: entries_def)
qed

text \<open>
  Claim C6 as stated fails: alice's directory holds no folder \<open>a1b2c3\<close> before the empty
  upload and holds it afterwards, although the upload was refused.
\<close>

theorem empty_batch_counterexample:
  "fst (upload (Map.empty([''uploads''] \<mapsto> Dir, [''uploads'', ''alice''] \<mapsto> Dir))
         (Some ''alice'') ''a1b2c3'' (Parsed []))
     = Send 400 ''no files uploaded''
   \<and> ''a1b2c3'' \<notin> entries (Map.empty([''uploads''] \<mapsto> Dir, [''uploads'', ''alice''] \<mapsto> Dir))
         [''uploads'', ''alice'']
   \<and> ''a1b2c3'' \<in> entries
         (snd (upload (Map.empty([''uploads''] \<mapsto> Dir, [''uploads'', ''alice''] \<mapsto> Dir))
            (Some ''alice'') ''a1b2c3'' (Parsed [])))
         [''uploads'', ''alice'']
   \<and> snd (upload (Map.empty([''uploads''] \<mapsto> Dir, [''uploads'', ''alice''] \<mapsto> Dir))
         (Some ''alice'') ''a1b2c3'' (Parsed []))
     \<noteq> Map.empty([''uploads''] \<mapsto> Dir, [''uploads'', ''alice''] \<mapsto> Dir)"
proof -
  let ?F = "Map.empty([''uploads''] \<mapsto> Dir, [''uploads'', ''alice''] \<mapsto> Dir)"
  let ?up = "upload ?F (Some ''alice'') ''a1b2c3'' (Parsed [])"
  have a: "fst ?up = Send 400 ''no files uploaded''"
    by code_simp
  have b: "?F [''uploads'', ''alice'', ''a1b2c3''] = None"
    by simp
  have c: "snd ?up [''uploads'', ''alice'', ''a1b2c3''] = Some Dir"
    by code_simp
  from b c have d: "snd ?up \<noteq> ?F"
    by (metis option.distinct(1))
  from a b c d show ?thesis
    by (simp add: entries_def)
qed

theorem empty_batch_keeps_folder_witness:
  "fst (upload (Map.empty([''uploads''] \<mapsto> Dir, [''uploads'', ''bob''] \<mapsto> Dir,
                          [''uploads'', ''bob'', ''0f0f0f''] \<mapsto> Dir))
         (Some ''bob'') ''c4d5e6'' (Parsed []))
     = Send 400 ''no files uploaded''
   \<and> snd (upload (Map.empty([''uploads''] \<mapsto> Dir, [''uploads'', ''bob''] \<mapsto> Dir,
                          [''uploads'', ''bob'', ''0f0f0f''] \<mapsto> Dir))
         (Some ''bob'') ''c4d5e6'' (Parsed [])) [''uploads'', ''bob'', ''c4d5e6'']
     = Some Dir
   \<and> ''c4d5e6'' \<in> entries
         (snd (upload (Map.empty([''uploads''] \<mapsto> Dir, [''uploads'', ''bob''] \<mapsto> Dir,
                          [''uploads'', ''bob'', ''0f0f0f''] \<mapsto> Dir))
            (Some ''bob'') ''c4d5e6'' (Parsed [])))
         [''uploads'', ''bob'']
   \<and> snd (upload (Map.empty([''uploads''] \<mapsto> Dir, [''uploads'', ''bob''] \<mapsto> Dir,
                          [''uploads'', ''bob'', ''0f0f0f''] \<mapsto> Dir))
         (Some ''bob'') ''c4d5e6'' (Parsed [])) [''uploads'', ''bob'', ''0f0f0f'']
     = Some Dir"
proof -
  let ?F = "Map.empty([''uploads''] \<mapsto> Dir, [''uploads'', ''bob''] \<mapsto> Dir,
                      [''uploads'', ''bob'', ''0f0f0f''] \<mapsto> Dir)"
  let ?up = "upload ?F (Some ''bob'') ''c4d5e6'' (Parsed [])"
  have u: "''bob'' \<noteq> []" by simp
  have pl: "plain ''bob'' \<and> plain ''c4d5e6''" by (simp add: plain_def)
  have U: "path_join [UPLOAD_DIR, ''bob''] = [''uploads'', ''bob'']" by code_simp
  have P: "join_onto [''uploads'', ''bob''] [''c4d5e6''] = [''uploads'', ''bob'', ''c4d5e6'']"
    by code_simp
  have n1: "\<forall>k c. node_at ?F (take k (path_join [UPLOAD_DIR, ''bob''])) \<noteq> Some (File c)"
    by (simp add: U node_at_def take_Cons')
  have n2: "\<forall>k c. node_at ?F (take k (join_onto (path_join [UPLOAD_DIR, ''bob'']) [''c4d5e6'']))
      \<noteq> Some (File c)"
    by (simp add: U P node_at_def take_Cons')
  note t = empty_batch_keeps_folder[OF u, of ?F "''c4d5e6''" "snd ?up"]
  from t n1 n2 have a: "fst ?up = Send 400 ''no files uploaded''" by blast
  then have r: "?up = (Send 400 ''no files uploaded'', snd ?up)" by (metis prod.collapse)
  from t r pl have b: "snd ?up [''uploads'', ''bob'', ''c4d5e6''] = Some Dir"
    and c: "''c4d5e6'' \<in> entries (snd ?up) [''uploads'', ''bob'']" by blast+
  have "?F [''uploads'', ''bob'', ''0f0f0f''] \<noteq> None" by simp
  with t r have "snd ?up [''uploads'', ''bob'', ''0f0f0f''] = ?F [''uploads'', ''bob'', ''0f0f0f'']"
    by blast
  then have d: "snd ?up [''uploads'', ''bob'', ''0f0f0f''] = Some Dir" by simp
  from a b c d show ?thesis by blast
qed

section \<open>Defects\<close>

text \<open>
  Claim C3 says that allocation checks the drawn folder id for a collision, draws again
  and gives up after a bounded number of tries. The handler draws once and never looks:
  when alice already owns folder \<open>a1b2c3\<close> and the same id is drawn again, the upload
  succeeds into the existing folder, next to the old file and over the old index page.
\<close>

theorem allocation_reuses_existing_folder:
  "existsSync
     (Map.empty([''uploads''] \<mapsto> Dir, [''uploads'', ''alice''] \<mapsto> Dir,
        [''uploads'', ''alice'', ''a1b2c3''] \<mapsto> Dir,
        [''uploads'', ''alice'', ''a1b2c3'', ''old.txt''] \<mapsto> File ''old'',
        [''uploads'', ''alice'', ''a1b2c3'', ''index.html''] \<mapsto> File ''old index''))
     (join_onto (path_join [UPLOAD_DIR, ''alice'']) [''a1b2c3''])
   \<and> fst (upload
     (Map.empty([''uploads''] \<mapsto> Dir, [''uploads'', ''alice''] \<mapsto> Dir,
        [''uploads'', ''alice'', ''a1b2c3''] \<mapsto> Dir,
        [''uploads'', ''alice'', ''a1b2c3'', ''old.txt''] \<mapsto> File ''old'',
        [''uploads'', ''alice'', ''a1b2c3'', ''index.html''] \<mapsto> File ''old index''))
     (Some ''alice'') ''a1b2c3''
     (Parsed [One \<lparr>originalFilename = ''new.txt'',
                    filepath = [''uploads'', ''alice'', ''a1b2c3'', ''tmp1''],
                    content = ''new''\<rparr>])) = Send 200 ''upload successful''
   \<and> snd (upload
     (Map.empty([''uploads''] \<mapsto> Dir, [''uploads'', ''alice''] \<mapsto> Dir,
        [''uploads'', ''alice'', ''a1b2c3''] \<mapsto> Dir,
        [''uploads'', ''alice'', ''a1b2c3'', ''old.txt''] \<mapsto> File ''old'',
        [''uploads'', ''alice'', ''a1b2c3'', ''index.html''] \<mapsto> File ''old index''))
     (Some ''alice'') ''a1b2c3''
     (Parsed [One \<lparr>originalFilename = ''new.txt'',
                    filepath = [''uploads'', ''alice'', ''a1b2c3'', ''tmp1''],
                    content = ''new''\<rparr>])) [''uploads'', ''alice'', ''a1b2c3'', ''old.txt'']
       = Some (File ''old'')
   \<and> snd (upload
     (Map.empty([''uploads''] \<mapsto> Dir, [''uploads'', ''alice''] \<mapsto> Dir,
        [''uploads'', ''alice'', ''a1b2c3''] \<mapsto> Dir,
        [''uploads'', ''alice'', ''a1b2c3'', ''old.txt''] \<mapsto> File ''old'',
        [''uploads'', ''alice'', ''a1b2c3'', ''index.html''] \<mapsto> File ''old index''))
     (Some ''alice'') ''a1b2c3''
     (Parsed [One \<lparr>originalFilename = ''new.txt'',
                    filepath = [''uploads'', ''alice'', ''a1b2c3'', ''tmp1''],
                    content = ''new''\<rparr>])) [''uploads'', ''alice'', ''a1b2c3'', ''new.txt'']
       = Some (File ''new'')
   \<and> snd (upload
     (Map.empty([''uploads''] \<mapsto> Dir, [''uploads'', ''alice''] \<mapsto> Dir,
        [''uploads'', ''alice'', ''a1b2c3''] \<mapsto> Dir,
        [''uploads'', ''alice'', ''a1b2c3'', ''old.txt''] \<mapsto> File ''old'',
        [''uploads'', ''alice'', ''a1b2c3'', ''index.html''] \<mapsto> File ''old index''))
     (Some ''alice'') ''a1b2c3''
     (Parsed [One \<lparr>originalFilename = ''new.txt'',
                    filepath = [''uploads'', ''alice'', ''a1b2c3'', ''tmp1''],
                    content = ''new''\<rparr>])) [''uploads'', ''alice'', ''a1b2c3'', ''index.html'']
       \<noteq> Some (File ''old index'')"
  by code_simp

text \<open>
  Claim C4 says that no client filename leads to a write outside the allocated folder.
  The handler joins the folder with the client's name as it came: the name
  \<^verbatim>\<open>../evil.txt\<close> moves the file into alice's directory, beside the folder and not in it.
\<close>

theorem upload_writes_outside_folder:
  "join_onto (path_join [UPLOAD_DIR, ''alice'']) [''a1b2c3''] = [''uploads'', ''alice'', ''a1b2c3'']
   \<and> fst (upload (Map.empty([''uploads''] \<mapsto> Dir)) (Some ''alice'') ''a1b2c3''
     (Parsed [One \<lparr>originalFilename = ''../evil.txt'',
                    filepath = [''uploads'', ''alice'', ''a1b2c3'', ''tmp1''],
                    content = ''bytes''\<rparr>])) = Send 200 ''upload successful''
   \<and> snd (upload (Map.empty([''uploads''] \<mapsto> Dir)) (Some ''alice'') ''a1b2c3''
     (Parsed [One \<lparr>originalFilename = ''../evil.txt'',
                    filepath = [''uploads'', ''alice'', ''a1b2c3'', ''tmp1''],
                    content = ''bytes''\<rparr>])) [''uploads'', ''alice'', ''evil.txt'']
       = Some (File ''bytes'')
   \<and> snd (upload (Map.empty([''uploads''] \<mapsto> Dir)) (Some ''alice'') ''a1b2c3''
     (Parsed [One \<lparr>originalFilename = ''../evil.txt'',
                    filepath = [''uploads'', ''alice'', ''a1b2c3'', ''tmp1''],
                    content = ''bytes''\<rparr>])) [''uploads'', ''alice'', ''a1b2c3'', ''evil.txt'']
       = None
   \<and> snd (upload (Map.empty([''uploads''] \<mapsto> Dir)) (Some ''alice'') ''a1b2c3''
     (Parsed [One \<lparr>originalFilename = ''../evil.txt'',
                    filepath = [''uploads'', ''alice'', ''a1b2c3'', ''tmp1''],
                    content = ''bytes''\<rparr>])) [''uploads'', ''alice'', ''a1b2c3'', ''tmp1'']
       = None"
  by code_simp

text \<open>
  Claim C1 says that a download by the owner returns a path under the owner's namespace.
  The handler compares the caller with \<^verbatim>\<open>:user\<close> only and joins \<^verbatim>\<open>:folder\<close> and
  \<^verbatim>\<open>:filename\<close> as they came: bob, asking as himself for folder \<^verbatim>\<open>..\<close> and filename
  \<^verbatim>\<open>alice/a1b2c3/secret.txt\<close>, is given alice's file.
\<close>

theorem download_leaves_namespace:
  "download
     (Map.empty([''uploads''] \<mapsto> Dir, [''uploads'', ''alice''] \<mapsto> Dir,
        [''uploads'', ''bob''] \<mapsto> Dir,
        [''uploads'', ''alice'', ''a1b2c3''] \<mapsto> Dir,
        [''uploads'', ''alice'', ''a1b2c3'', ''secret.txt''] \<mapsto> File ''secret''))
     (Some ''bob'') ''bob'' ''..'' ''alice/a1b2c3/secret.txt''
     = Download [''uploads'', ''alice'', ''a1b2c3'', ''secret.txt'']
   \<and> path_join [UPLOAD_DIR, ''bob''] = [''uploads'', ''bob'']"
  by code_simp

text \<open>
  Claim C5 says that for every batch of one or more files the upload succeeds and leaves
  exactly those files and one index page that lists them all. The loop renames
  \<^verbatim>\<open>file[0]\<close> of every field, but the index page reads \<^verbatim>\<open>files[key][i]\<close> with \<open>i\<close> the
  position of the key: for two files sent in two fields both are renamed, the page builder
  finds \<^verbatim>\<open>files[key][1]\<close> undefined for the second field and throws, and no index page is
  written.
\<close>

theorem two_array_fields_throw:
  "fst (upload (Map.empty([''uploads''] \<mapsto> Dir)) (Some ''alice'') ''a1b2c3''
     (Parsed [Many [\<lparr>originalFilename = ''a.txt'',
                      filepath = [''uploads'', ''alice'', ''a1b2c3'', ''t1''], content = ''A''\<rparr>],
              Many [\<lparr>originalFilename = ''b.txt'',
                      filepath = [''uploads'', ''alice'', ''a1b2c3'', ''t2''], content = ''B''\<rparr>]]))
     = Throw TypeError
   \<and> snd (upload (Map.empty([''uploads''] \<mapsto> Dir)) (Some ''alice'') ''a1b2c3''
     (Parsed [Many [\<lparr>originalFilename = ''a.txt'',
                      filepath = [''uploads'', ''alice'', ''a1b2c3'', ''t1''], content = ''A''\<rparr>],
              Many [\<lparr>originalFilename = ''b.txt'',
                      filepath = [''uploads'', ''alice'', ''a1b2c3'', ''t2''], content = ''B''\<rparr>]]))
       [''uploads'', ''alice'', ''a1b2c3'', ''b.txt''] = Some (File ''B'')
   \<and> snd (upload (Map.empty([''uploads''] \<mapsto> Dir)) (Some ''alice'') ''a1b2c3''
     (Parsed [Many [\<lparr>originalFilename = ''a.txt'',
                      filepath = [''uploads'', ''alice'', ''a1b2c3'', ''t1''], content = ''A''\<rparr>],
              Many [\<lparr>originalFilename = ''b.txt'',
                      filepath = [''uploads'', ''alice'', ''a1b2c3'', ''t2''], content = ''B''\<rparr>]]))
       [''uploads'', ''alice'', ''a1b2c3'', ''index.html''] = None"
  by code_simp

text \<open>
  Claim C10 says that after an upload \<^verbatim>\<open>index.html\<close> in the folder is always the generated
  page and never the client's file. The same exception leaves the handler after the
  renames and before the index page is written: with a client file named
  \<^verbatim>\<open>index.html\<close> in the first of two fields, the client's bytes stay under that name.
\<close>

theorem client_index_html_survives:
  "fst (upload (Map.empty([''uploads''] \<mapsto> Dir)) (Some ''alice'') ''a1b2c3''
     (Parsed [Many [\<lparr>originalFilename = ''index.html'',
                      filepath = [''uploads'', ''alice'', ''a1b2c3'', ''t1''],
                      content = ''client page''\<rparr>],
              Many [\<lparr>originalFilename = ''b.txt'',
                      filepath = [''uploads'', ''alice'', ''a1b2c3'', ''t2''], content = ''B''\<rparr>]]))
     = Throw TypeError
   \<and> snd (upload (Map.empty([''uploads''] \<mapsto> Dir)) (Some ''alice'') ''a1b2c3''
     (Parsed [Many [\<lparr>originalFilename = ''index.html'',
                      filepath = [''uploads'', ''alice'', ''a1b2c3'', ''t1''],
                      content = ''client page''\<rparr>],
              Many [\<lparr>originalFilename = ''b.txt'',
                      filepath = [''uploads'', ''alice'', ''a1b2c3'', ''t2''], content = ''B''\<rparr>]]))
       [''uploads'', ''alice'', ''a1b2c3'', ''index.html''] = Some (File ''client page'')
   \<and> snd (upload (Map.empty([''uploads''] \<mapsto> Dir)) (Some ''alice'') ''a1b2c3''
     (Parsed [Many [\<lparr>originalFilename = ''index.html'',
                      filepath = [''uploads'', ''alice'', ''a1b2c3'', ''t1''],
                      content = ''client page''\<rparr>],
              Many [\<lparr>originalFilename = ''b.txt'',
                      filepath = [''uploads'', ''alice'', ''a1b2c3'', ''t2''], content = ''B''\<rparr>]]))
       [''uploads'', ''alice'', ''a1b2c3'', ''b.txt''] = Some (File ''B'')"
  by code_simp

section \<open>Facts about the static middleware\<close>

lemma path_join_plain: "\<forall>a\<in>set args. plain a \<Longrightarrow> path_join args = args"
  using join_onto_plain[of "[]" args] by (simp add: path_join_def)

lemma serve_static_file:
  assumes "\<forall>a\<in>set segs. static_name a" and "plain root"
    and "fs (root # segs) = Some (File bytes)"
  shows "serve_static root fs segs = Served bytes"
proof -
  from assms(1) have pl: "\<forall>a\<in>set segs. plain a" by (simp add: static_name_def)
  from assms(1) have up: "\<not> up_path segs"
    by (induction segs) (auto simp: static_name_def up_path_def)
  from pl have ne: "(segs \<noteq> [] \<and> last segs = []) = False"
    by (metis last_in_set plain_def)
  from pl have p1: "path_join segs = segs" by (rule path_join_plain)
  from pl assms(2) have p2: "path_join (root # segs) = root # segs"
    by (simp add: path_join_plain)
  from assms(1) have dot: "\<not> containsDotFile segs"
    by (induction segs) (auto simp: static_name_def containsDotFile_def)
  from assms(2) have "\<not> list_all (\<lambda>s. s = ''..'') (root # segs)" by (simp add: plain_def)
  with assms(3) have "node_at fs (root # segs) = Some (File bytes)" by (simp add: node_at_def)
  with up dot p1 p2 show ?thesis by (simp add: serve_static_def ne)
qed

lemma serve_static_miss:
  assumes "\<forall>a\<in>set segs. static_name a" and "plain root"
    and "fs (root # segs) = None"
  shows "serve_static root fs segs = Miss"
proof -
  from assms(1) have pl: "\<forall>a\<in>set segs. plain a" by (simp add: static_name_def)
  from pl assms(2) have p2: "path_join (root # segs) = root # segs"
    by (simp add: path_join_plain)
  from pl have ne: "(segs \<noteq> [] \<and> last segs = []) = False"
    by (metis last_in_set plain_def)
  from assms(2) have "\<not> list_all (\<lambda>s. s = ''..'') (root # segs)" by (simp add: plain_def)
  with assms(3) have "node_at fs (root # segs) = None" by (simp add: node_at_def)
  with p2 show ?thesis by (simp add: serve_static_def ne)
qed

lemma static_name_uploads: "static_name ''uploads''"
  by (simp add: static_name_def plain_def up_path_def)

lemma path_join_UPLOAD_DIR: "path_join (UPLOAD_DIR # segs) = path_join (''uploads'' # segs)"
  by (simp add: path_join_def join_onto_def split_UPLOAD_DIR split_slash_plain plain_def)

lemma serve_static_UPLOAD_DIR: "serve_static UPLOAD_DIR fs segs = serve_static ''uploads'' fs segs"
  by (simp add: serve_static_def path_join_UPLOAD_DIR)

section \<open>The static route\<close>

text \<open>
  Claim C2, as the code has it. A regular file stored at
  \<^verbatim>\<open>uploads/<owner>/<folder>/<filename>\<close>, where the three names are plain names that do not
  begin with a dot (and hold no \<open>..\<close> between backslashes) and no entry
  \<^verbatim>\<open>public/uploads/<owner>/<folder>/<filename>\<close> shadows it, is sent byte for byte in answer to
  a GET of \<^verbatim>\<open>/uploads/<owner>/<folder>/<filename>\<close>, whatever the session holds and also
  without a session. A logged-in caller who is not the owner is refused by the download
  route and served the same file by the static route.
\<close>

theorem static_route_serves_stored_file:
  "static_name owner \<Longrightarrow> static_name folder \<Longrightarrow> static_name filename \<Longrightarrow>
   fs [''uploads'', owner, folder, filename] = Some (File bytes) \<Longrightarrow>
   fs [''public'', ''uploads'', owner, folder, filename] = None \<Longrightarrow>
   get_uploads fs userId [owner, folder, filename] = SendFile bytes
   \<and> get_uploads fs None [owner, folder, filename] = SendFile bytes
   \<and> (caller \<noteq> [] \<and> caller \<noteq> owner \<longrightarrow>
        download fs (Some caller) owner folder filename = Send 403 ''forbidden''
        \<and> get_uploads fs (Some caller) [owner, folder, filename] = SendFile bytes)"
proof -
  assume n: "static_name owner" "static_name folder" "static_name filename"
    and f: "fs [''uploads'', owner, folder, filename] = Some (File bytes)"
    and s: "fs [''public'', ''uploads'', owner, folder, filename] = None"
  have pu: "plain ''public''" "plain ''uploads''" by (simp_all add: plain_def)
  from n static_name_uploads have "\<forall>a\<in>set [''uploads'', owner, folder, filename]. static_name a"
    by simp
  from serve_static_miss[where fs = fs, OF this pu(1) s]
  have 1: "serve_static ''public'' fs [''uploads'', owner, folder, filename] = Miss" .
  from n have "\<forall>a\<in>set [owner, folder, filename]. static_name a" by simp
  from serve_static_file[where fs = fs, OF this pu(2) f]
  have 2: "serve_static UPLOAD_DIR fs [owner, folder, filename] = Served bytes"
    by (simp add: serve_static_UPLOAD_DIR)
  from 1 2 have g: "\<And>u. get_uploads fs u [owner, folder, filename] = SendFile bytes"
    by (simp add: get_uploads_def static_middlewares_def)
  have d: "caller \<noteq> [] \<and> caller \<noteq> owner \<longrightarrow>
        download fs (Some caller) owner folder filename = Send 403 ''forbidden''"
    by (simp add: download_def requireLogin_def)
  from g d show ?thesis by simp
qed

theorem static_route_serves_stored_file_witness:
  "get_uploads (Map.empty([''uploads'', ''alice'', ''a1b2c3'', ''a.txt''] \<mapsto> File ''hello''))
       None [''alice'', ''a1b2c3'', ''a.txt''] = SendFile ''hello''
   \<and> get_uploads (Map.empty([''uploads'', ''alice'', ''a1b2c3'', ''a.txt''] \<mapsto> File ''hello''))
       (Some ''bob'') [''alice'', ''a1b2c3'', ''a.txt''] = SendFile ''hello''
   \<and> download (Map.empty([''uploads'', ''alice'', ''a1b2c3'', ''a.txt''] \<mapsto> File ''hello''))
       (Some ''bob'') ''alice'' ''a1b2c3'' ''a.txt'' = Send 403 ''forbidden''
   \<and> static_name ''alice'' \<and> static_name ''a1b2c3'' \<and> static_name ''a.txt''"
proof -
  let ?F = "Map.empty([''uploads'', ''alice'', ''a1b2c3'', ''a.txt''] \<mapsto> File ''hello'')"
  have n: "static_name ''alice''" "static_name ''a1b2c3''" "static_name ''a.txt''"
    by (simp_all add: static_name_def plain_def up_path_def)
  have f: "?F [''uploads'', ''alice'', ''a1b2c3'', ''a.txt''] = Some (File ''hello'')" by simp
  have s: "?F [''public'', ''uploads'', ''alice'', ''a1b2c3'', ''a.txt''] = None" by simp
  have c: "''bob'' \<noteq> [] \<and> ''bob'' \<noteq> ''alice''" by simp
  from static_route_serves_stored_file[OF n f s, of "Some ''bob''" "''bob''"] c n
  show ?thesis by blast
qed

text \<open>
  Claim C2 as stated fails for a stored file whose name begins with a dot: the static
  middleware ignores it and the request finds no route.
\<close>

theorem static_route_ignores_dotfile:
  "(Map.empty([''uploads'', ''alice'', ''a1b2c3'', ''.env''] \<mapsto> File ''KEY=1''))
       [''uploads'', ''alice'', ''a1b2c3'', ''.env''] = Some (File ''KEY=1'')
   \<and> get_uploads (Map.empty([''uploads'', ''alice'', ''a1b2c3'', ''.env''] \<mapsto> File ''KEY=1''))
       None [''alice'', ''a1b2c3'', ''.env''] = NoRoute"
  by code_simp

section \<open>Facts about the rename loop\<close>

lemma distinct_map_Cons_neq:
  "distinct (map h (x # xs)) \<Longrightarrow> y \<in> set xs \<Longrightarrow> h y \<noteq> h x"
  by (metis distinct.simps(2) image_eqI list.simps(9) set_map)

lemma node_at_uploads: "node_at fs ((''uploads'' # r) @ xs) = fs ((''uploads'' # r) @ xs)"
  by (simp add: node_at_def)

lemma renameSync_file:
  assumes "P = ''uploads'' # r" and "fs P = Some Dir" and "fs (P @ [t]) = Some (File c)"
    and "fs (P @ [n]) = None" and "t \<noteq> n"
  shows "renameSync fs (P @ [t]) (P @ [n]) = Inr (fs(P @ [t] := None, P @ [n] \<mapsto> File c))"
proof -
  from assms(1,3) have 1: "node_at fs (P @ [t]) = Some (File c)" by (simp add: node_at_def)
  from assms(1,2) have 2: "node_at fs P = Some Dir" by (simp add: node_at_def)
  from assms(1,4) have 3: "node_at fs (P @ [n]) = None" by (simp add: node_at_def)
  from 1 2 3 assms(5) show ?thesis by (simp add: renameSync_def)
qed

lemma rename_loop_ok:
  assumes "P = ''uploads'' # r" and "\<forall>s\<in>set P. plain s"
    and "fs P = Some Dir"
    and "\<forall>f\<in>set fl. plain (originalFilename f)"
    and "distinct (map originalFilename fl)"
    and "\<forall>f\<in>set fl. \<exists>t. filepath f = P @ [t]"
    and "distinct (map filepath fl)"
    and "\<forall>f\<in>set fl. \<forall>g\<in>set fl. filepath f \<noteq> P @ [originalFilename g]"
    and "\<forall>f\<in>set fl. fs (filepath f) = Some (File (content f))"
    and "\<forall>f\<in>set fl. fs (P @ [originalFilename f]) = None"
  shows "\<exists>fs'. rename_loop fs P (map One fl) = Inr fs'
     \<and> (\<forall>f\<in>set fl. fs' (P @ [originalFilename f]) = Some (File (content f)))
     \<and> (\<forall>f\<in>set fl. fs' (filepath f) = None)
     \<and> (\<forall>q. q \<notin> (\<lambda>f. P @ [originalFilename f]) ` set fl \<longrightarrow> q \<notin> filepath ` set fl \<longrightarrow>
            fs' q = fs q)"
  using assms(3-)
proof (induction fl arbitrary: fs)
  case Nil
  then show ?case by simp
next
  case (Cons f fl)
  let ?new = "P @ [originalFilename f]"
  let ?fs1 = "fs(filepath f := None, ?new \<mapsto> File (content f))"
  from Cons.prems(4) obtain t where t: "filepath f = P @ [t]" by auto
  from Cons.prems(6) t have tn: "t \<noteq> originalFilename f" by auto
  have j: "join_onto P [originalFilename f] = ?new"
    using Cons.prems(2) assms(2) by (simp add: join_onto_plain)
  from Cons.prems(7) t have st: "fs (P @ [t]) = Some (File (content f))" by simp
  from Cons.prems(8) have fr: "fs ?new = None" by simp
  from renameSync_file[OF assms(1) Cons.prems(1) st fr tn] t
  have rn: "renameSync fs (filepath f) ?new = Inr ?fs1" by simp
  have step: "rename_loop fs P (map One (f # fl)) = rename_loop ?fs1 P (map One fl)"
    by (simp add: first_of_def j rn)
  have d1: "?fs1 P = Some Dir"
    using Cons.prems(1) t by simp
  have d2: "\<forall>f\<in>set fl. plain (originalFilename f)" using Cons.prems(2) by simp
  have d3: "distinct (map originalFilename fl)" using Cons.prems(3) by simp
  have d4: "\<forall>f\<in>set fl. \<exists>t. filepath f = P @ [t]" using Cons.prems(4) by simp
  have d5: "distinct (map filepath fl)" using Cons.prems(5) by simp
  have d6: "\<forall>f\<in>set fl. \<forall>g\<in>set fl. filepath f \<noteq> P @ [originalFilename g]"
    using Cons.prems(6) by simp
  have d7: "\<forall>g\<in>set fl. ?fs1 (filepath g) = Some (File (content g))"
  proof
    fix g assume g: "g \<in> set fl"
    with Cons.prems(5) have "filepath g \<noteq> filepath f" by (rule distinct_map_Cons_neq)
    moreover from g Cons.prems(6) have "filepath g \<noteq> ?new" by simp
    moreover from g Cons.prems(7) have "fs (filepath g) = Some (File (content g))" by simp
    ultimately show "?fs1 (filepath g) = Some (File (content g))" by simp
  qed
  have d8: "\<forall>g\<in>set fl. ?fs1 (P @ [originalFilename g]) = None"
  proof
    fix g assume g: "g \<in> set fl"
    with Cons.prems(3) have "originalFilename g \<noteq> originalFilename f"
      by (rule distinct_map_Cons_neq)
    then have "P @ [originalFilename g] \<noteq> ?new" by simp
    moreover from g Cons.prems(6) have "P @ [originalFilename g] \<noteq> filepath f" by auto
    moreover from g Cons.prems(8) have "fs (P @ [originalFilename g]) = None" by simp
    ultimately show "?fs1 (P @ [originalFilename g]) = None" by simp
  qed
  from Cons.IH[OF d1 d2 d3 d4 d5 d6 d7 d8] obtain fs' where
    r: "rename_loop ?fs1 P (map One fl) = Inr fs'" and
    a: "\<forall>g\<in>set fl. fs' (P @ [originalFilename g]) = Some (File (content g))" and
    b: "\<forall>g\<in>set fl. fs' (filepath g) = None" and
    c: "\<forall>q. q \<notin> (\<lambda>f. P @ [originalFilename f]) ` set fl \<longrightarrow> q \<notin> filepath ` set fl \<longrightarrow>
            fs' q = ?fs1 q" by blast
  have n1: "?new \<notin> (\<lambda>f. P @ [originalFilename f]) ` set fl"
  proof
    assume "?new \<in> (\<lambda>f. P @ [originalFilename f]) ` set fl"
    then obtain g where g: "g \<in> set fl" and "?new = P @ [originalFilename g]" by blast
    then have "originalFilename g = originalFilename f" by simp
    with distinct_map_Cons_neq[OF Cons.prems(3) g] show False by blast
  qed
  have n2: "?new \<notin> filepath ` set fl"
    using Cons.prems(6) by auto
  have o1: "filepath f \<notin> (\<lambda>f. P @ [originalFilename f]) ` set fl"
    using Cons.prems(6) by auto
  have o2: "filepath f \<notin> filepath ` set fl"
  proof
    assume "filepath f \<in> filepath ` set fl"
    then obtain g where g: "g \<in> set fl" and "filepath f = filepath g" by blast
    with distinct_map_Cons_neq[OF Cons.prems(5) g] show False by simp
  qed
  from c n1 n2 have A: "fs' ?new = Some (File (content f))" by simp
  from c o1 o2 t tn have B: "fs' (filepath f) = None" by simp
  have C: "\<forall>q. q \<notin> (\<lambda>f. P @ [originalFilename f]) ` set (f # fl) \<longrightarrow>
      q \<notin> filepath ` set (f # fl) \<longrightarrow> fs' q = fs q"
    using c by auto
  from step r have "rename_loop fs P (map One (f # fl)) = Inr fs'" by simp
  moreover from A a have "\<forall>g\<in>set (f # fl). fs' (P @ [originalFilename g]) = Some (File (content g))"
    by simp
  moreover from B b have "\<forall>g\<in>set (f # fl). fs' (filepath g) = None" by simp
  ultimately show ?case using C by blast
qed

section \<open>Facts about the files of a batch\<close>

lemma rename_loop_first:
  "list_all2 (\<lambda>e f. first_of e = Some f) batch fl \<Longrightarrow>
   rename_loop fs P batch = rename_loop fs P (map One fl)"
proof (induction batch fl arbitrary: fs rule: list_all2_induct)
  case Nil
  then show ?case by simp
next
  case (Cons e es f fl)
  then show ?case by (simp add: first_of_def split: sum.splits)
qed

lemma index_objs_nth:
  "length batch = length fl \<Longrightarrow>
   (\<forall>j<length fl. nth_of (i + j) (batch ! j) = Some (fl ! j)) \<Longrightarrow>
   index_objs i batch = Inr fl"
proof (induction batch arbitrary: i fl)
  case Nil
  then show ?case by simp
next
  case (Cons e es)
  then obtain f fl' where fl: "fl = f # fl'" by (cases fl) auto
  from Cons.prems(2) fl have h: "nth_of i e = Some f" by fastforce
  have "\<forall>j<length fl'. nth_of (Suc i + j) (es ! j) = Some (fl' ! j)"
  proof (intro allI impI)
    fix j assume "j < length fl'"
    with Cons.prems(2) fl have "nth_of (i + Suc j) ((e # es) ! Suc j) = Some ((f # fl') ! Suc j)"
      by (metis Suc_less_eq length_Cons)
    then show "nth_of (Suc i + j) (es ! j) = Some (fl' ! j)" by simp
  qed
  with Cons.IH[of fl' "Suc i"] Cons.prems(1) fl have "index_objs (Suc i) es = Inr fl'" by simp
  with h fl show ?case by simp
qed

lemma concat_field_files:
  "list_all2 (\<lambda>e f. field_files e = [f]) batch fl \<Longrightarrow> concat (map field_files batch) = fl"
  by (induction batch fl rule: list_all2_induct) auto

lemma store_other:
  "q \<notin> filepath ` set fl \<Longrightarrow> fold store_file fl fs q = fs q"
  by (induction fl arbitrary: fs) (auto simp: store_file_def)

lemma store_at:
  "distinct (map filepath fl) \<Longrightarrow> f \<in> set fl \<Longrightarrow>
   fold store_file fl fs (filepath f) = Some (File (content f))"
proof (induction fl arbitrary: fs)
  case Nil
  then show ?case by simp
next
  case (Cons g fl)
  show ?case
  proof (cases "f \<in> set fl")
    case True
    with Cons show ?thesis by simp
  next
    case False
    with Cons.prems have fg: "f = g" by simp
    from Cons.prems(1) have "filepath g \<notin> filepath ` set fl" by simp
    from store_other[OF this, of "store_file g fs"] have
      "fold store_file fl (store_file g fs) (filepath g) = Some (File (content g))"
      by (simp add: store_file_def)
    with fg show ?thesis by simp
  qed
qed

lemma one_file_fields:
  assumes "length batch = length fl"
    and "\<forall>i<length fl. batch ! i = One (fl ! i) \<or> (i = 0 \<and> batch ! i = Many [fl ! i])"
  shows "rename_loop fs P batch = rename_loop fs P (map One fl)"
    and "index_objs 0 batch = Inr fl"
    and "formidable_store fs batch = fold store_file fl fs"
proof -
  have 1: "list_all2 (\<lambda>e f. first_of e = Some f) batch fl"
    using assms by (auto simp: list_all2_conv_all_nth first_of_def)
  have 2: "list_all2 (\<lambda>e f. field_files e = [f]) batch fl"
    using assms by (auto simp: list_all2_conv_all_nth field_files_def)
  have 3: "\<forall>j<length fl. nth_of (0 + j) (batch ! j) = Some (fl ! j)"
    using assms(2) by (auto simp: nth_of_def)
  from rename_loop_first[OF 1] show "rename_loop fs P batch = rename_loop fs P (map One fl)" .
  from index_objs_nth[OF assms(1) 3] show "index_objs 0 batch = Inr fl" .
  from concat_field_files[OF 2]
  show "formidable_store fs batch = fold store_file fl fs"
    by (simp add: formidable_store_def)
qed

section \<open>Facts about the upload folder and the index page\<close>

lemma upload_dirs_plain:
  assumes "plain uid" and "plain folder" and "fs [''uploads''] = Some Dir"
    and "\<forall>c. fs [''uploads'', uid] \<noteq> Some (File c)"
    and "\<forall>c. fs [''uploads'', uid, folder] \<noteq> Some (File c)"
  shows "\<exists>fs1 fs2. ensure_namespace fs uid = Inr (fs1, [''uploads'', uid])
     \<and> mkdirSync_recursive fs1 [''uploads'', uid, folder] = Inr fs2
     \<and> fs2 [''uploads'', uid, folder] = Some Dir
     \<and> (\<forall>q. 3 < length q \<longrightarrow> fs2 q = fs q)"
proof -
  let ?U = "[''uploads'', uid]"
  let ?P = "[''uploads'', uid, folder]"
  from assms(1) have U: "path_join [UPLOAD_DIR, uid] = ?U"
    by (simp add: path_join_uploads_plain)
  have nf: "\<And>k c. 0 < k \<Longrightarrow> node_at fs (take k ?P) \<noteq> Some (File c)"
  proof -
    fix k :: nat and c assume "0 < k"
    then have "take k ?P = [''uploads''] \<or> take k ?P = ?U \<or> take k ?P = ?P"
      by (auto simp: take_Cons')
    with assms(3,4,5) show "node_at fs (take k ?P) \<noteq> Some (File c)"
      by (auto simp: node_at_def)
  qed
  have nfU: "\<And>k c. 0 < k \<Longrightarrow> node_at fs (take k ?U) \<noteq> Some (File c)"
  proof -
    fix k :: nat and c assume "0 < k"
    then have "take k ?U = [''uploads''] \<or> take k ?U = ?U"
      by (auto simp: take_Cons')
    with assms(3,4) show "node_at fs (take k ?U) \<noteq> Some (File c)"
      by (auto simp: node_at_def)
  qed
  obtain fs1 where e: "ensure_namespace fs uid = Inr (fs1, ?U)"
  proof (cases "ensure_namespace fs uid")
    case (Inl e)
    from mkdir_from_fails[OF ensure_failed[OF Inl]] U nfU show ?thesis by auto
  next
    case (Inr a)
    then obtain fs1 U' where "ensure_namespace fs uid = Inr (fs1, U')" by (cases a) auto
    with ensure_path[OF this] U that show ?thesis by simp
  qed
  obtain fs2 where m: "mkdirSync_recursive fs1 ?P = Inr fs2"
  proof (cases "mkdirSync_recursive fs1 ?P")
    case (Inl e')
    from mkdir_from_fails[OF Inl[unfolded mkdirSync_recursive_def]] obtain k c where
      k: "0 < k" and "node_at fs1 ([] @ take k ?P) = Some (File c)" by blast
    then have "node_at fs1 (take k ?P) = Some (File c)" by simp
    from ensure_file_before[OF e this] nf[OF k] show ?thesis by blast
  next
    case (Inr a)
    with that show ?thesis by simp
  qed
  from mkdirSync_dir[OF m] have d: "fs2 ?P = Some Dir" by (simp add: node_at_def)
  have fr: "\<forall>q. 3 < length q \<longrightarrow> fs2 q = fs q"
  proof (intro allI impI)
    fix q :: path assume q: "3 < length q"
    have 1: "fs1 q = fs q"
    proof (rule ccontr)
      assume "fs1 q \<noteq> fs q"
      from ensure_frame[OF e this] obtain k where "q = take k ?U" by blast
      then have "length q \<le> 2" by simp
      with q show False by simp
    qed
    have 2: "fs2 q = fs1 q"
    proof (rule ccontr)
      assume "fs2 q \<noteq> fs1 q"
      from mkdirSync_frame[OF m this] obtain k where "q = take k ?P" by blast
      then have "length q \<le> 3" by simp
      with q show False by simp
    qed
    from 1 2 show "fs2 q = fs q" by simp
  qed
  from e m d fr show ?thesis by blast
qed

lemma join_with_occurs:
  "x \<in> set xs \<Longrightarrow> \<exists>a b. join_with sep xs = a @ x @ b"
proof (induction sep xs rule: join_with.induct)
  case (1 sep)
  then show ?case by simp
next
  case (2 sep y)
  then have "join_with sep [y] = [] @ x @ []" by simp
  then show ?case by blast
next
  case (3 sep y z zs)
  show ?case
  proof (cases "x = y")
    case True
    then have "join_with sep (y # z # zs) = [] @ x @ (sep @ join_with sep (z # zs))" by simp
    then show ?thesis by blast
  next
    case False
    with 3 obtain a b where "join_with sep (z # zs) = a @ x @ b" by auto
    then have "join_with sep (y # z # zs) = (y @ sep @ a) @ x @ b" by simp
    then show ?thesis by blast
  qed
qed

lemma index_html_lists:
  assumes "f \<in> set fl"
  shows "\<exists>a b. index_html uid folder fl = a @ button uid folder (originalFilename f) @ b"
proof -
  from assms have "button uid folder (originalFilename f)
      \<in> set (map (\<lambda>f. button uid folder (originalFilename f)) fl)" by auto
  from join_with_occurs[OF this, of "''<br>''"] obtain a b where
    "join_with ''<br>'' (map (\<lambda>f. button uid folder (originalFilename f)) fl)
       = a @ button uid folder (originalFilename f) @ b" by blast
  then show ?thesis
    unfolding index_html_def index_page_def
    by (metis append.assoc)
qed

section \<open>Facts about a stored batch\<close>

lemma upload_stores_batch:
  assumes pu: "plain uid" and pf: "plain folder"
    and up: "fs [''uploads''] = Some Dir"
    and nu: "\<forall>c. fs [''uploads'', uid] \<noteq> Some (File c)"
    and np: "\<forall>c. fs [''uploads'', uid, folder] \<noteq> Some (File c)"
    and fresh: "\<forall>n. fs [''uploads'', uid, folder, n] = None"
    and ne: "fl \<noteq> []" and len: "length batch = length fl"
    and one: "\<forall>i<length fl. batch ! i = One (fl ! i) \<or> (i = 0 \<and> batch ! i = Many [fl ! i])"
    and names: "\<forall>f\<in>set fl. plain (originalFilename f)"
    and dn: "distinct (map originalFilename fl)"
    and temps: "\<forall>f\<in>set fl. \<exists>t. filepath f = [''uploads'', uid, folder, t]"
    and dt: "distinct (map filepath fl)"
    and disj: "\<forall>f\<in>set fl. \<forall>g\<in>set fl. filepath f \<noteq> [''uploads'', uid, folder, originalFilename g]"
  shows "\<exists>fs4. upload fs (Some uid) folder (Parsed batch)
        = (Send 200 ''upload successful'',
           fs4([''uploads'', uid, folder, ''index.html''] \<mapsto> File (index_html uid folder fl)))
     \<and> (\<forall>f\<in>set fl. fs4 [''uploads'', uid, folder, originalFilename f] = Some (File (content f)))
     \<and> (\<forall>n. n \<notin> originalFilename ` set fl \<longrightarrow> fs4 [''uploads'', uid, folder, n] = None)"
proof -
  let ?U = "[''uploads'', uid]"
  let ?P = "[''uploads'', uid, folder]"
  let ?I = "[''uploads'', uid, folder, ''index.html'']"
  have pP: "\<forall>s\<in>set ?P. plain s" using pu pf by (simp add: plain_def)
  have Peq: "?P = ''uploads'' # [uid, folder]" by simp
  from pu have u0: "uid \<noteq> []" by (simp add: plain_def)
  from upload_dirs_plain[OF pu pf up nu np] obtain fs1 fs2 where
    e: "ensure_namespace fs uid = Inr (fs1, ?U)" and
    m: "mkdirSync_recursive fs1 ?P = Inr fs2" and
    d2: "fs2 ?P = Some Dir" and
    fr: "\<forall>q. 3 < length q \<longrightarrow> fs2 q = fs q" by blast
  have jP: "join_onto ?U [folder] = ?P"
    using pu pf join_onto_plain[of ?U "[folder]"] by (simp add: plain_def)
  have jI: "join_onto ?P [''index.html''] = ?I"
    using pP join_onto_plain[of ?P "[''index.html'']"] by (simp add: plain_def)
  let ?fs3 = "fold store_file fl fs2"
  note shape = one_file_fields[OF len one]
  have st: "formidable_store fs2 batch = ?fs3" by (rule shape(3))
  have Pnt: "?P \<notin> filepath ` set fl"
  proof
    assume "?P \<in> filepath ` set fl"
    then obtain f where "f \<in> set fl" and "filepath f = ?P" by auto
    with temps show False by fastforce
  qed
  have d3: "?fs3 ?P = Some Dir" using store_other[OF Pnt] d2 by simp
  have temps': "\<forall>f\<in>set fl. \<exists>t. filepath f = ?P @ [t]" using temps by simp
  have disj': "\<forall>f\<in>set fl. \<forall>g\<in>set fl. filepath f \<noteq> ?P @ [originalFilename g]"
    using disj by simp
  have s3: "\<forall>f\<in>set fl. ?fs3 (filepath f) = Some (File (content f))"
    using store_at[OF dt] by blast
  have fresh3: "\<And>n. [''uploads'', uid, folder, n] \<notin> filepath ` set fl \<Longrightarrow>
      ?fs3 [''uploads'', uid, folder, n] = None"
  proof -
    fix n assume "[''uploads'', uid, folder, n] \<notin> filepath ` set fl"
    from store_other[OF this] fr fresh show "?fs3 [''uploads'', uid, folder, n] = None" by simp
  qed
  have f3: "\<forall>f\<in>set fl. ?fs3 (?P @ [originalFilename f]) = None"
  proof
    fix f assume f: "f \<in> set fl"
    have "[''uploads'', uid, folder, originalFilename f] \<notin> filepath ` set fl"
    proof
      assume "[''uploads'', uid, folder, originalFilename f] \<in> filepath ` set fl"
      then obtain g where "g \<in> set fl" and "filepath g = [''uploads'', uid, folder, originalFilename f]"
        by auto
      with disj f show False by blast
    qed
    from fresh3[OF this] show "?fs3 (?P @ [originalFilename f]) = None" by simp
  qed
  from rename_loop_ok[OF Peq pP d3 names dn temps' dt disj' s3 f3] obtain fs4 where
    r: "rename_loop ?fs3 ?P (map One fl) = Inr fs4" and
    a: "\<forall>f\<in>set fl. fs4 (?P @ [originalFilename f]) = Some (File (content f))" and
    b: "\<forall>f\<in>set fl. fs4 (filepath f) = None" and
    c: "\<forall>q. q \<notin> (\<lambda>f. ?P @ [originalFilename f]) ` set fl \<longrightarrow> q \<notin> filepath ` set fl \<longrightarrow>
            fs4 q = ?fs3 q" by blast
  from r shape(1) have r': "rename_loop ?fs3 ?P batch = Inr fs4" by simp
  have other: "\<forall>n. n \<notin> originalFilename ` set fl \<longrightarrow> fs4 [''uploads'', uid, folder, n] = None"
  proof (intro allI impI)
    fix n assume n: "n \<notin> originalFilename ` set fl"
    then have nn: "[''uploads'', uid, folder, n] \<notin> (\<lambda>f. ?P @ [originalFilename f]) ` set fl"
      by auto
    show "fs4 [''uploads'', uid, folder, n] = None"
    proof (cases "[''uploads'', uid, folder, n] \<in> filepath ` set fl")
      case True
      with b show ?thesis by auto
    next
      case False
      with c nn have "fs4 [''uploads'', uid, folder, n] = ?fs3 [''uploads'', uid, folder, n]" by blast
      with fresh3[OF False] show ?thesis by simp
    qed
  qed
  have Pn4: "?P \<notin> (\<lambda>f. ?P @ [originalFilename f]) ` set fl" by auto
  from c Pn4 Pnt d3 have d4: "fs4 ?P = Some Dir" by simp
  have nd: "fs4 ?I \<noteq> Some Dir"
  proof (cases "''index.html'' \<in> originalFilename ` set fl")
    case True
    then obtain f where "f \<in> set fl" and "originalFilename f = ''index.html''" by auto
    with a have "fs4 ?I = Some (File (content f))" by fastforce
    then show ?thesis by simp
  next
    case False
    with other show ?thesis by simp
  qed
  have n1: "node_at fs4 ?I = fs4 ?I" by (simp add: node_at_def)
  have n2: "node_at fs4 (butlast ?I) = Some Dir" using d4 by (simp add: node_at_def)
  have w: "writeFileSync fs4 ?I (index_html uid folder fl)
      = Inr (fs4(?I \<mapsto> File (index_html uid folder fl)))"
    unfolding writeFileSync_def n1 n2 using nd
    by (cases "fs4 ?I") (auto split: node.splits)
  from len ne have bne: "batch \<noteq> []" by auto
  have cb: "upload fs (Some uid) folder (Parsed batch)
      = (Send 200 ''upload successful'', fs4(?I \<mapsto> File (index_html uid folder fl)))"
    using u0 e m bne st r' shape(2) w
    by (simp add: upload_def upload_callback_def jP jI)
  show ?thesis
  proof -
    have "\<forall>f\<in>set fl. fs4 [''uploads'', uid, folder, originalFilename f] = Some (File (content f))"
      using a by simp
    moreover note other
    ultimately show ?thesis using cb by blast
  qed
qed

lemma one_file_per_field_stored:
  assumes "plain uid" and "plain folder"
    and "fs [''uploads''] = Some Dir"
    and "\<forall>c. fs [''uploads'', uid] \<noteq> Some (File c)"
    and "\<forall>c. fs [''uploads'', uid, folder] \<noteq> Some (File c)"
    and "\<forall>n. fs [''uploads'', uid, folder, n] = None"
    and "fl \<noteq> []" and "length batch = length fl"
    and "\<forall>i<length fl. batch ! i = One (fl ! i) \<or> (i = 0 \<and> batch ! i = Many [fl ! i])"
    and "\<forall>f\<in>set fl. plain (originalFilename f)"
    and "distinct (map originalFilename fl)"
    and "''index.html'' \<notin> originalFilename ` set fl"
    and "\<forall>f\<in>set fl. \<exists>t. filepath f = [''uploads'', uid, folder, t]"
    and "distinct (map filepath fl)"
    and "\<forall>f\<in>set fl. \<forall>g\<in>set fl. filepath f \<noteq> [''uploads'', uid, folder, originalFilename g]"
  shows "fst (upload fs (Some uid) folder (Parsed batch)) = Send 200 ''upload successful''
     \<and> entries (snd (upload fs (Some uid) folder (Parsed batch))) [''uploads'', uid, folder]
         = originalFilename ` set fl \<union> {''index.html''}
     \<and> card (entries (snd (upload fs (Some uid) folder (Parsed batch))) [''uploads'', uid, folder])
         = length fl + 1
     \<and> (\<forall>f\<in>set fl. snd (upload fs (Some uid) folder (Parsed batch))
            [''uploads'', uid, folder, originalFilename f] = Some (File (content f)))
     \<and> snd (upload fs (Some uid) folder (Parsed batch)) [''uploads'', uid, folder, ''index.html'']
         = Some (File (index_html uid folder fl))
     \<and> (\<forall>f\<in>set fl. \<exists>a b. index_html uid folder fl
            = a @ button uid folder (originalFilename f) @ b)
     \<and> (\<forall>f\<in>set fl. download (snd (upload fs (Some uid) folder (Parsed batch)))
            (Some uid) uid folder (originalFilename f)
          = Download [''uploads'', uid, folder, originalFilename f])"
proof -
  let ?I = "[''uploads'', uid, folder, ''index.html'']"
  let ?up = "upload fs (Some uid) folder (Parsed batch)"
  from upload_stores_batch[OF assms(1-11) assms(13-15)] obtain fs4 where
    u: "?up = (Send 200 ''upload successful'', fs4(?I \<mapsto> File (index_html uid folder fl)))" and
    a: "\<forall>f\<in>set fl. fs4 [''uploads'', uid, folder, originalFilename f] = Some (File (content f))" and
    o: "\<forall>n. n \<notin> originalFilename ` set fl \<longrightarrow> fs4 [''uploads'', uid, folder, n] = None"
    by blast
  let ?fs5 = "fs4(?I \<mapsto> File (index_html uid folder fl))"
  from u have 1: "fst ?up = Send 200 ''upload successful''" and s: "snd ?up = ?fs5" by simp_all
  have files: "\<forall>f\<in>set fl. ?fs5 [''uploads'', uid, folder, originalFilename f] = Some (File (content f))"
  proof
    fix f assume f: "f \<in> set fl"
    with assms(12) have "originalFilename f \<noteq> ''index.html''" by force
    with a f show "?fs5 [''uploads'', uid, folder, originalFilename f] = Some (File (content f))"
      by simp
  qed
  have idx: "?fs5 ?I = Some (File (index_html uid folder fl))" by simp
  have ent: "entries ?fs5 [''uploads'', uid, folder] = originalFilename ` set fl \<union> {''index.html''}"
  proof (rule set_eqI)
    fix n
    show "n \<in> entries ?fs5 [''uploads'', uid, folder]
       \<longleftrightarrow> n \<in> originalFilename ` set fl \<union> {''index.html''}"
    proof (cases "n = ''index.html''")
      case True
      then show ?thesis by (simp add: entries_def)
    next
      case False
      show ?thesis
      proof (cases "n \<in> originalFilename ` set fl")
        case True
        then obtain f where "f \<in> set fl" and "n = originalFilename f" by auto
        with files have "?fs5 [''uploads'', uid, folder, n] \<noteq> None" by fastforce
        with True show ?thesis by (simp add: entries_def)
      next
        case nin: False
        with o have "fs4 [''uploads'', uid, folder, n] = None" by simp
        with False nin show ?thesis by (simp add: entries_def)
      qed
    qed
  qed
  have "card (originalFilename ` set fl) = length fl"
    using assms(11) distinct_card[of "map originalFilename fl"] by simp
  with assms(12) have crd: "card (originalFilename ` set fl \<union> {''index.html''}) = length fl + 1"
    by simp
  have dl: "\<forall>f\<in>set fl. download ?fs5 (Some uid) uid folder (originalFilename f)
          = Download [''uploads'', uid, folder, originalFilename f]"
  proof
    fix f assume f: "f \<in> set fl"
    with assms(10) have pn: "plain (originalFilename f)" by simp
    from assms(1) have u0: "uid \<noteq> []" by (simp add: plain_def)
    from assms(1,2) pn have p: "path_join [UPLOAD_DIR, uid, folder, originalFilename f]
        = [''uploads'', uid, folder, originalFilename f]"
      by (simp add: path_join_uploads_plain)
    from files f have "existsSync ?fs5 [''uploads'', uid, folder, originalFilename f]"
      by (simp add: existsSync_def node_at_def del: fun_upd_apply)
    with u0 p show "download ?fs5 (Some uid) uid folder (originalFilename f)
          = Download [''uploads'', uid, folder, originalFilename f]"
      by (simp add: download_def requireLogin_def del: fun_upd_apply)
  qed
  from 1 show ?thesis
    unfolding s using ent crd files idx index_html_lists[of _ fl uid folder] dl
    by (simp del: fun_upd_apply)
qed

section \<open>Further properties\<close>

text \<open>
  For plain names the download route stays inside the owner's namespace: the owner's
  request is answered with 404 when \<^verbatim>\<open>uploads/<owner>/<folder>/<filename>\<close> does not exist
  and resolves to exactly that path otherwise.
\<close>

theorem download_plain_names:
  "plain owner \<Longrightarrow> plain folder \<Longrightarrow> plain filename \<Longrightarrow>
   download fs (Some owner) owner folder filename =
     (if fs [''uploads'', owner, folder, filename] = None then Send 404 ''file not found''
      else Download [''uploads'', owner, folder, filename])"
proof -
  assume p: "plain owner" "plain folder" "plain filename"
  then have "path_join [UPLOAD_DIR, owner, folder, filename] = [''uploads'', owner, folder, filename]"
    by (simp add: path_join_uploads_plain)
  moreover from p(1) have "owner \<noteq> []" by (simp add: plain_def)
  ultimately show ?thesis
    by (auto simp: download_def requireLogin_def existsSync_def node_at_def Let_def)
qed

theorem download_plain_names_witness:
  "download (Map.empty([''uploads'', ''alice'', ''a1b2c3'', ''a.txt''] \<mapsto> File ''hello''))
      (Some ''alice'') ''alice'' ''a1b2c3'' ''a.txt''
     = Download [''uploads'', ''alice'', ''a1b2c3'', ''a.txt'']
   \<and> download (Map.empty([''uploads'', ''alice'', ''a1b2c3'', ''a.txt''] \<mapsto> File ''hello''))
      (Some ''alice'') ''alice'' ''a1b2c3'' ''b.txt''
     = Send 404 ''file not found''"
proof -
  have p: "plain ''alice''" "plain ''a1b2c3''" "plain ''a.txt''" "plain ''b.txt''"
    by (simp_all add: plain_def)
  from download_plain_names[OF p(1,2,3)] download_plain_names[OF p(1,2,4)]
  show ?thesis by simp
qed

text \<open>
  A field that carries an array of two files: the loop renames \<^verbatim>\<open>file[0]\<close> only, and
  the index page is built from \<^verbatim>\<open>files[key][0]\<close> only. The second file keeps its temporary
  name and is not listed.
\<close>

theorem array_field_moves_first_file_only:
  "fst (upload (Map.empty([''uploads''] \<mapsto> Dir)) (Some ''alice'') ''a1b2c3''
     (Parsed [Many [\<lparr>originalFilename = ''a.txt'',
                      filepath = [''uploads'', ''alice'', ''a1b2c3'', ''t1''], content = ''A''\<rparr>,
                    \<lparr>originalFilename = ''b.txt'',
                      filepath = [''uploads'', ''alice'', ''a1b2c3'', ''t2''], content = ''B''\<rparr>]]))
     = Send 200 ''upload successful''
   \<and> snd (upload (Map.empty([''uploads''] \<mapsto> Dir)) (Some ''alice'') ''a1b2c3''
     (Parsed [Many [\<lparr>originalFilename = ''a.txt'',
                      filepath = [''uploads'', ''alice'', ''a1b2c3'', ''t1''], content = ''A''\<rparr>,
                    \<lparr>originalFilename = ''b.txt'',
                      filepath = [''uploads'', ''alice'', ''a1b2c3'', ''t2''], content = ''B''\<rparr>]]))
       [''uploads'', ''alice'', ''a1b2c3'', ''a.txt''] = Some (File ''A'')
   \<and> snd (upload (Map.empty([''uploads''] \<mapsto> Dir)) (Some ''alice'') ''a1b2c3''
     (Parsed [Many [\<lparr>originalFilename = ''a.txt'',
                      filepath = [''uploads'', ''alice'', ''a1b2c3'', ''t1''], content = ''A''\<rparr>,
                    \<lparr>originalFilename = ''b.txt'',
                      filepath = [''uploads'', ''alice'', ''a1b2c3'', ''t2''], content = ''B''\<rparr>]]))
       [''uploads'', ''alice'', ''a1b2c3'', ''b.txt''] = None
   \<and> snd (upload (Map.empty([''uploads''] \<mapsto> Dir)) (Some ''alice'') ''a1b2c3''
     (Parsed [Many [\<lparr>originalFilename = ''a.txt'',
                      filepath = [''uploads'', ''alice'', ''a1b2c3'', ''t1''], content = ''A''\<rparr>,
                    \<lparr>originalFilename = ''b.txt'',
                      filepath = [''uploads'', ''alice'', ''a1b2c3'', ''t2''], content = ''B''\<rparr>]]))
       [''uploads'', ''alice'', ''a1b2c3'', ''t2''] = Some (File ''B'')
   \<and> snd (upload (Map.empty([''uploads''] \<mapsto> Dir)) (Some ''alice'') ''a1b2c3''
     (Parsed [Many [\<lparr>originalFilename = ''a.txt'',
                      filepath = [''uploads'', ''alice'', ''a1b2c3'', ''t1''], content = ''A''\<rparr>,
                    \<lparr>originalFilename = ''b.txt'',
                      filepath = [''uploads'', ''alice'', ''a1b2c3'', ''t2''], content = ''B''\<rparr>]]))
       [''uploads'', ''alice'', ''a1b2c3'', ''index.html'']
     = Some (File (index_page (button ''alice'' ''a1b2c3'' ''a.txt'')))"
  by code_simp

text \<open>
  One file in one field, handed over as an array of one. With plain names for the user,
  the folder and the file, a fresh folder and no regular file in the way, the upload
  succeeds: the folder lists exactly the file and \<^verbatim>\<open>index.html\<close>, the file holds its bytes
  under its client filename, the index page holds the button of that file, and the owner's
  download of it resolves to the file.
\<close>

theorem single_file_upload_stored:
  assumes "plain uid" and "plain folder"
    and "fs [''uploads''] = Some Dir"
    and "\<forall>c. fs [''uploads'', uid] \<noteq> Some (File c)"
    and "\<forall>c. fs [''uploads'', uid, folder] \<noteq> Some (File c)"
    and "\<forall>n. fs [''uploads'', uid, folder, n] = None"
    and "plain (originalFilename f)" and "originalFilename f \<noteq> ''index.html''"
    and "filepath f = [''uploads'', uid, folder, t]" and "t \<noteq> originalFilename f"
  shows "fst (upload fs (Some uid) folder (Parsed [Many [f]])) = Send 200 ''upload successful''
     \<and> entries (snd (upload fs (Some uid) folder (Parsed [Many [f]]))) [''uploads'', uid, folder]
         = {originalFilename f, ''index.html''}
     \<and> snd (upload fs (Some uid) folder (Parsed [Many [f]]))
           [''uploads'', uid, folder, originalFilename f] = Some (File (content f))
     \<and> snd (upload fs (Some uid) folder (Parsed [Many [f]])) [''uploads'', uid, folder, ''index.html'']
         = Some (File (index_page (button uid folder (originalFilename f))))
     \<and> download (snd (upload fs (Some uid) folder (Parsed [Many [f]])))
           (Some uid) uid folder (originalFilename f)
         = Download [''uploads'', uid, folder, originalFilename f]"
proof -
  have h7: "[f] \<noteq> []" and h8: "length [Many [f]] = length [f]" by simp_all
  have h9: "\<forall>i<length [f]. [Many [f]] ! i = One ([f] ! i) \<or> (i = 0 \<and> [Many [f]] ! i = Many [[f] ! i])"
    by simp
  have h10: "\<forall>g\<in>set [f]. plain (originalFilename g)" using assms(7) by simp
  have h11: "distinct (map originalFilename [f])" by simp
  have h12: "''index.html'' \<notin> originalFilename ` set [f]" using assms(8) by simp
  have h13: "\<forall>g\<in>set [f]. \<exists>t. filepath g = [''uploads'', uid, folder, t]" using assms(9) by simp
  have h14: "distinct (map filepath [f])" by simp
  have h15: "\<forall>g\<in>set [f]. \<forall>h\<in>set [f]. filepath g \<noteq> [''uploads'', uid, folder, originalFilename h]"
    using assms(9,10) by simp
  note t = one_file_per_field_stored[OF assms(1-6) h7 h8 h9 h10 h11 h12 h13 h14 h15]
  have i: "index_html uid folder [f] = index_page (button uid folder (originalFilename f))"
    by (simp add: index_html_def)
  let ?up = "upload fs (Some uid) folder (Parsed [Many [f]])"
  from t have 1: "fst ?up = Send 200 ''upload successful''" by blast
  from t have 2: "entries (snd ?up) [''uploads'', uid, folder]
      = originalFilename ` set [f] \<union> {''index.html''}" by blast
  from t have 3: "\<forall>g\<in>set [f]. snd ?up [''uploads'', uid, folder, originalFilename g]
      = Some (File (content g))" by blast
  from t have 4: "snd ?up [''uploads'', uid, folder, ''index.html'']
      = Some (File (index_html uid folder [f]))" by blast
  from t have 5: "\<forall>g\<in>set [f]. download (snd ?up) (Some uid) uid folder (originalFilename g)
      = Download [''uploads'', uid, folder, originalFilename g]" by blast
  from 2 have r2: "entries (snd ?up) [''uploads'', uid, folder] = {originalFilename f, ''index.html''}"
    by auto
  from 3 have r3: "snd ?up [''uploads'', uid, folder, originalFilename f] = Some (File (content f))"
    by simp
  from 5 have r5: "download (snd ?up) (Some uid) uid folder (originalFilename f)
      = Download [''uploads'', uid, folder, originalFilename f]" by simp
  from 1 r2 r3 4[unfolded i] r5 show ?thesis by (intro conjI)
qed

text \<open>
  One client file named \<^verbatim>\<open>index.html\<close>, alone in its batch: it is moved to that name first
  (its temporary path is gone) and then replaced by the generated page.
\<close>

theorem single_index_html_replaced:
  "fst (upload (Map.empty([''uploads''] \<mapsto> Dir)) (Some ''alice'') ''a1b2c3''
     (Parsed [Many [\<lparr>originalFilename = ''index.html'',
                      filepath = [''uploads'', ''alice'', ''a1b2c3'', ''t1''],
                      content = ''client page''\<rparr>]]))
     = Send 200 ''upload successful''
   \<and> snd (upload (Map.empty([''uploads''] \<mapsto> Dir)) (Some ''alice'') ''a1b2c3''
     (Parsed [Many [\<lparr>originalFilename = ''index.html'',
                      filepath = [''uploads'', ''alice'', ''a1b2c3'', ''t1''],
                      content = ''client page''\<rparr>]]))
       [''uploads'', ''alice'', ''a1b2c3'', ''index.html'']
     = Some (File (index_page (button ''alice'' ''a1b2c3'' ''index.html'')))
   \<and> snd (upload (Map.empty([''uploads''] \<mapsto> Dir)) (Some ''alice'') ''a1b2c3''
     (Parsed [Many [\<lparr>originalFilename = ''index.html'',
                      filepath = [''uploads'', ''alice'', ''a1b2c3'', ''t1''],
                      content = ''client page''\<rparr>]]))
       [''uploads'', ''alice'', ''a1b2c3'', ''t1''] = None
   \<and> index_page (button ''alice'' ''a1b2c3'' ''index.html'') \<noteq> ''client page''"
  by code_simp

text \<open>
  A stored file whose name begins with a dot is not served by the static route, whatever
  the file system holds.
\<close>

theorem static_route_ignores_dot_names:
  assumes "plain owner" and "plain folder" and "plain filename" and "hd filename = CHR ''.''"
  shows "get_uploads fs userId [owner, folder, filename] = NoRoute"
proof -
  have pu: "plain ''uploads''" by (simp add: plain_def)
  from assms(3,4) have l: "1 < length filename"
    by (cases filename) (auto simp: plain_def)
  from assms pu have 1: "path_join [''uploads'', owner, folder, filename]
      = [''uploads'', owner, folder, filename]"
    by (simp add: path_join_plain)
  from assms have 2: "path_join [owner, folder, filename] = [owner, folder, filename]"
    by (simp add: path_join_plain)
  from l assms(4) have d1: "containsDotFile [''uploads'', owner, folder, filename]"
    and d2: "containsDotFile [owner, folder, filename]"
    by (simp_all add: containsDotFile_def)
  from 1 d1 have a: "serve_static ''public'' fs [''uploads'', owner, folder, filename] = Miss"
    by (simp add: serve_static_def)
  from 2 d2 have b: "serve_static UPLOAD_DIR fs [owner, folder, filename] = Miss"
    by (simp add: serve_static_def)
  from a b show ?thesis
    by (simp add: get_uploads_def static_middlewares_def)
qed

end
